theory Spec2Isabelle
  imports Complex_Main
begin

section \<open>The SFFM backtest engine: data model\<close>

text \<open>
  The development embeds the event-driven core of the backtester: the position manager
  (\<^verbatim>\<open>execution/position_manager.py\<close>), the fill computation
  (\<^verbatim>\<open>execution/execution_engine.py\<close>), the trade ledger
  (\<^verbatim>\<open>backtest/ledger.py\<close>) and the bar loop (\<^verbatim>\<open>backtest/engine.py\<close>).

  In the engine Python floats are idealised as real numbers (the tick rounding is
  embedded a second time in binary64 arithmetic, where its tie behaviour is decided),
  timestamps are integers (nanoseconds since the epoch, as pandas stores them), Python
  integers are \<open>int\<close>. Every exception the
  source can raise is a value of the type \<open>error\<close>, and a function that can raise
  returns \<open>error + 'a\<close>.
\<close>

datatype error =
    FlatFillError           \<comment> \<open>ValueError("Cannot compute fill price for Direction.FLAT.")\<close>
  | InvalidDirection int    \<comment> \<open>ValueError: the integer is not a valid Direction\<close>
  | AssertionError          \<comment> \<open>a failed assert statement\<close>
  | AttributeError string   \<comment> \<open>the settings module has no attribute of that name\<close>
  | IndexError              \<comment> \<open>a positional read out of bounds\<close>
  | OverflowError           \<comment> \<open>an infinite float converted to an integer, or an integer too large for a float\<close>
  | NanToIntegerError       \<comment> \<open>ValueError: the float NaN converted to an integer\<close>

subsection \<open>Constants and settings\<close>

definition TICK_SIZE :: real where
  "TICK_SIZE = 5 / 100000"

definition TICK_VALUE :: real where
  "TICK_VALUE = 625 / 100"

text \<open>
  The settings module is read through attribute lookups \<^verbatim>\<open>S.NAME\<close>. The engine reads
  \<^verbatim>\<open>S.ROLL_CLOSE_SLIPPAGE_TICKS\<close> and \<^verbatim>\<open>S.ROLL_FREEZE_BARS_POST\<close>; a lookup of a name
  the module does not define raises, so these two fields are optional and \<open>None\<close> stands
  for an undefined name.
\<close>

record settings =
  SLIPPAGE_TICKS :: int
  COMMISSION_PER_SIDE :: real
  ROLL_CLOSE_SLIPPAGE_TICKS :: "int option"
  ROLL_FREEZE_BARS_POST :: "int option"

text \<open>The module \<^verbatim>\<open>config/settings.py\<close> as it stands: it defines neither roll constant.\<close>

definition settings_py :: settings where
  "settings_py = \<lparr> SLIPPAGE_TICKS = 1, COMMISSION_PER_SIDE = 25 / 10,
     ROLL_CLOSE_SLIPPAGE_TICKS = None, ROLL_FREEZE_BARS_POST = None \<rparr>"

subsection \<open>Direction and the position manager\<close>

datatype Direction = FLAT | LONG | SHORT

fun dvalue :: "Direction \<Rightarrow> int" where
  "dvalue FLAT = 0"
| "dvalue LONG = 1"
| "dvalue SHORT = - 1"

text \<open>The enum constructor \<^verbatim>\<open>Direction(v)\<close>: it raises on an integer that is no member.\<close>

definition mk_Direction :: "int \<Rightarrow> error + Direction" where
  "mk_Direction v =
     (if v = 0 then Inr FLAT
      else if v = 1 then Inr LONG
      else if v = - 1 then Inr SHORT
      else Inl (InvalidDirection v))"

record Action =
  close_existing :: bool
  open_new :: bool
  new_direction :: Direction

definition no_action :: Action where
  "no_action = \<lparr> close_existing = False, open_new = False, new_direction = FLAT \<rparr>"

record PositionManager =
  current_direction :: Direction
  entry_bar_index :: int

definition new_position_manager :: PositionManager where
  "new_position_manager = \<lparr> current_direction = FLAT, entry_bar_index = - 1 \<rparr>"

definition is_flat :: "PositionManager \<Rightarrow> bool" where
  "is_flat pm = (current_direction pm = FLAT)"

definition evaluate_signal :: "PositionManager \<Rightarrow> int \<Rightarrow> int \<Rightarrow> error + Action" where
  "evaluate_signal pm signal bar_index =
     (if signal = 0 then Inr no_action
      else case mk_Direction signal of
             Inl e \<Rightarrow> Inl e
           | Inr desired \<Rightarrow>
               if current_direction pm = desired then Inr no_action
               else if is_flat pm then
                 Inr \<lparr> close_existing = False, open_new = True, new_direction = desired \<rparr>
               else
                 Inr \<lparr> close_existing = True, open_new = True, new_direction = desired \<rparr>)"

definition on_open :: "PositionManager \<Rightarrow> Direction \<Rightarrow> int \<Rightarrow> PositionManager" where
  "on_open pm direction bar_index =
     pm\<lparr> current_direction := direction, entry_bar_index := bar_index \<rparr>"

definition on_close :: "PositionManager \<Rightarrow> PositionManager" where
  "on_close pm = pm\<lparr> current_direction := FLAT, entry_bar_index := - 1 \<rparr>"

subsection \<open>Fill price and tick rounding\<close>

definition compute_fill_price :: "settings \<Rightarrow> Direction \<Rightarrow> real \<Rightarrow> bool \<Rightarrow> error + real" where
  "compute_fill_price S direction bar_open is_roll_close =
     (if direction = FLAT then Inl FlatFillError
      else case (if is_roll_close
                 then (case ROLL_CLOSE_SLIPPAGE_TICKS S of
                         None \<Rightarrow> Inl (AttributeError ''ROLL_CLOSE_SLIPPAGE_TICKS'')
                       | Some k \<Rightarrow> Inr k)
                 else Inr (SLIPPAGE_TICKS S)) of
             Inl e \<Rightarrow> Inl e
           | Inr ticks \<Rightarrow>
               (let slippage_amount = of_int ticks * TICK_SIZE
                in if direction = LONG then Inr (bar_open + slippage_amount)
                   else Inr (bar_open - slippage_amount)))"

text \<open>
  Python's one-argument \<^verbatim>\<open>round\<close> returns the nearest integer and resolves a tie to the
  even neighbour; with a digit count it rounds, by the same rule, to that many decimals.
\<close>

definition py_round :: "real \<Rightarrow> int" where
  "py_round x =
     (let f = \<lfloor>x\<rfloor>; d = x - of_int f
      in if d < 1 / 2 then f
         else if 1 / 2 < d then f + 1
         else if even f then f else f + 1)"

definition py_round_ndigits :: "real \<Rightarrow> nat \<Rightarrow> real" where
  "py_round_ndigits x n = of_int (py_round (x * 10 ^ n)) / 10 ^ n"

definition round_to_tick :: "real \<Rightarrow> real" where
  "round_to_tick price =
     (let tick = TICK_SIZE
      in py_round_ndigits (of_int (py_round (price / tick)) * tick) 10)"

subsection \<open>Trades and the ledger\<close>

text \<open>The field \<open>r_multiple\<close> is always the float NaN in the source; \<open>None\<close> stands for it.\<close>

record Trade =
  trade_id :: int
  direction :: Direction
  entry_bar :: int
  exit_bar :: int
  entry_price :: real
  exit_price :: real
  gross_pnl :: real
  commission :: real
  net_pnl :: real
  is_winner :: bool
  r_multiple :: "real option"

definition build_trade ::
  "settings \<Rightarrow> int \<Rightarrow> Direction \<Rightarrow> int \<Rightarrow> int \<Rightarrow> real \<Rightarrow> real \<Rightarrow> Trade" where
  "build_trade S tid dir ebar xbar eprice xprice =
     (let price_to_usd = TICK_VALUE / TICK_SIZE;
          gross = of_int (dvalue dir) * (xprice - eprice) * price_to_usd;
          comm = COMMISSION_PER_SIDE S * 2;
          net = gross - comm
      in \<lparr> trade_id = tid, direction = dir, entry_bar = ebar, exit_bar = xbar,
           entry_price = eprice, exit_price = xprice, gross_pnl = gross,
           commission = comm, net_pnl = net, is_winner = (0 < net),
           r_multiple = None \<rparr>)"

record Ledger =
  trades :: "Trade list"
  next_id :: int

definition new_ledger :: Ledger where
  "new_ledger = \<lparr> trades = [], next_id = 1 \<rparr>"

definition record_trade ::
  "settings \<Rightarrow> Ledger \<Rightarrow> Direction \<Rightarrow> int \<Rightarrow> int \<Rightarrow> real \<Rightarrow> real \<Rightarrow> Ledger" where
  "record_trade S l dir ebar xbar eprice xprice =
     l\<lparr> trades := trades l @ [build_trade S (next_id l) dir ebar xbar eprice xprice],
        next_id := next_id l + 1 \<rparr>"

subsection \<open>Bars, pending orders and the run state\<close>

text \<open>
  A row of the M5 frame. The column \<^verbatim>\<open>contains_roll\<close> may be absent, in which case the
  engine reads \<^verbatim>\<open>False\<close>.
\<close>

record Bar =
  col_ts :: int
  col_open :: real
  col_high :: real
  col_low :: real
  col_close :: real
  contains_roll :: "bool option"

definition is_roll_bar :: "Bar \<Rightarrow> bool" where
  "is_roll_bar bar = (case contains_roll bar of None \<Rightarrow> False | Some b \<Rightarrow> b)"

record PendingOrder =
  close_direction :: "Direction option"
  open_direction :: "Direction option"
  signal_bar :: "int option"
  exit_reason :: string

record BacktestState =
  position :: PositionManager
  ledger :: Ledger
  pending :: "PendingOrder option"
  st_entry_price :: "real option"
  st_entry_bar :: "int option"
  roll_freeze_remaining :: int

definition new_state :: BacktestState where
  "new_state = \<lparr> position = new_position_manager, ledger = new_ledger, pending = None,
     st_entry_price = None, st_entry_bar = None, roll_freeze_remaining = 0 \<rparr>"

section \<open>The order and fill protocol\<close>

text \<open>
  \<^verbatim>\<open>_execute_pending\<close> is split into its two legs. The close leg builds the closing
  order's direction by negating the direction being closed, fills it at the bar's open
  (with the roll-close tick count when the exit reason is \<^verbatim>\<open>"roll"\<close>), checks the two
  asserts, records the trade and clears the position and the entry cache. The open leg
  fills the entry at the same open and calls \<^verbatim>\<open>on_open\<close> with \<^verbatim>\<open>bar_index=-1\<close>.
\<close>

definition close_leg ::
  "settings \<Rightarrow> PendingOrder \<Rightarrow> BacktestState \<Rightarrow> int \<Rightarrow> real \<Rightarrow> error + BacktestState" where
  "close_leg S p st bar_ts bar_open =
     (case close_direction p of
        None \<Rightarrow> Inr st
      | Some cd \<Rightarrow>
          (case mk_Direction (- dvalue cd) of
             Inl e \<Rightarrow> Inl e
           | Inr closing_order_dir \<Rightarrow>
               (case compute_fill_price S closing_order_dir bar_open
                       (exit_reason p = ''roll'') of
                  Inl e \<Rightarrow> Inl e
                | Inr fill \<Rightarrow>
                    (case st_entry_price st of
                       None \<Rightarrow> Inl AssertionError
                     | Some ep \<Rightarrow>
                         (case st_entry_bar st of
                            None \<Rightarrow> Inl AssertionError
                          | Some eb \<Rightarrow>
                              Inr (st\<lparr> ledger := record_trade S (ledger st) cd eb bar_ts ep
                                                   (round_to_tick fill),
                                       position := on_close (position st),
                                       st_entry_price := None,
                                       st_entry_bar := None \<rparr>))))))"

definition open_leg ::
  "settings \<Rightarrow> PendingOrder \<Rightarrow> BacktestState \<Rightarrow> int \<Rightarrow> real \<Rightarrow> error + BacktestState" where
  "open_leg S p st bar_ts bar_open =
     (case open_direction p of
        None \<Rightarrow> Inr st
      | Some od \<Rightarrow>
          (case compute_fill_price S od bar_open False of
             Inl e \<Rightarrow> Inl e
           | Inr fill \<Rightarrow>
               Inr (st\<lparr> position := on_open (position st) od (- 1),
                        st_entry_price := Some (round_to_tick fill),
                        st_entry_bar := Some bar_ts \<rparr>)))"

definition execute_pending ::
  "settings \<Rightarrow> BacktestState \<Rightarrow> int \<Rightarrow> real \<Rightarrow> error + BacktestState" where
  "execute_pending S st bar_ts bar_open =
     (case pending st of
        None \<Rightarrow> Inl AssertionError
      | Some p \<Rightarrow>
          (case close_leg S p st bar_ts bar_open of
             Inl e \<Rightarrow> Inl e
           | Inr st1 \<Rightarrow>
               (case open_leg S p st1 bar_ts bar_open of
                  Inl e \<Rightarrow> Inl e
                | Inr st2 \<Rightarrow> Inr (st2\<lparr> pending := None \<rparr>))))"

section \<open>The bar loop\<close>

text \<open>\<^verbatim>\<open>int(signals.iloc[i])\<close>: a positional read, out of bounds past the end.\<close>

definition signal_at :: "int list \<Rightarrow> nat \<Rightarrow> error + int" where
  "signal_at signals i = (if i < length signals then Inr (signals ! i) else Inl IndexError)"

text \<open>Steps 2 to 4 of the loop body: roll handling, freeze window, signal evaluation.\<close>

definition evaluate_bar ::
  "settings \<Rightarrow> int list \<Rightarrow> nat \<Rightarrow> Bar \<Rightarrow> BacktestState \<Rightarrow> error + BacktestState" where
  "evaluate_bar S signals i bar st =
     (if is_roll_bar bar then
        (let st2 = (if \<not> is_flat (position st)
                    then st\<lparr> pending := Some \<lparr> close_direction =
                                                  Some (current_direction (position st)),
                                                open_direction = None,
                                                signal_bar = Some (col_ts bar),
                                                exit_reason = ''roll'' \<rparr> \<rparr>
                    else st)
         in case ROLL_FREEZE_BARS_POST S of
              None \<Rightarrow> Inl (AttributeError ''ROLL_FREEZE_BARS_POST'')
            | Some k \<Rightarrow> Inr (st2\<lparr> roll_freeze_remaining := k \<rparr>))
      else if 0 < roll_freeze_remaining st then
        Inr (st\<lparr> roll_freeze_remaining := roll_freeze_remaining st - 1 \<rparr>)
      else
        (case signal_at signals i of
           Inl e \<Rightarrow> Inl e
         | Inr signal_value \<Rightarrow>
             (case evaluate_signal (position st) signal_value (int i) of
                Inl e \<Rightarrow> Inl e
              | Inr action \<Rightarrow>
                  if close_existing action \<or> open_new action then
                    Inr (st\<lparr> pending := Some \<lparr> close_direction =
                                                 (if close_existing action
                                                  then Some (current_direction (position st))
                                                  else None),
                                               open_direction =
                                                 (if open_new action
                                                  then Some (new_direction action)
                                                  else None),
                                               signal_bar = Some (col_ts bar),
                                               exit_reason = ''signal'' \<rparr> \<rparr>)
                  else Inr (st\<lparr> pending := None \<rparr>))))"

text \<open>One iteration: step 1 executes a pending order if there is one, then steps 2 to 4.\<close>

definition step ::
  "settings \<Rightarrow> int list \<Rightarrow> nat \<Rightarrow> Bar \<Rightarrow> BacktestState \<Rightarrow> error + BacktestState" where
  "step S signals i bar st =
     (case (if pending st \<noteq> None
            then execute_pending S st (col_ts bar) (col_open bar)
            else Inr st) of
        Inl e \<Rightarrow> Inl e
      | Inr st1 \<Rightarrow> evaluate_bar S signals i bar st1)"

text \<open>The loop over \<^verbatim>\<open>range(n_bars)\<close>, from bar index \<open>i\<close> on; an exception ends it.\<close>

fun loop ::
  "settings \<Rightarrow> int list \<Rightarrow> nat \<Rightarrow> Bar list \<Rightarrow> BacktestState \<Rightarrow> error + BacktestState" where
  "loop S signals i [] st = Inr st"
| "loop S signals i (bar # bars) st =
     (case step S signals i bar st of
        Inl e \<Rightarrow> Inl e
      | Inr st' \<Rightarrow> loop S signals (Suc i) bars st')"

definition force_close_at_end ::
  "settings \<Rightarrow> BacktestState \<Rightarrow> Bar list \<Rightarrow> error + BacktestState" where
  "force_close_at_end S st bars =
     (if is_flat (position st) then Inr st
      else if bars = [] then Inl IndexError
      else
        (let last_bar = last bars;
             bar_ts = col_ts last_bar;
             bar_open = col_open last_bar
         in case mk_Direction (- dvalue (current_direction (position st))) of
              Inl e \<Rightarrow> Inl e
            | Inr closing_dir \<Rightarrow>
                (case compute_fill_price S closing_dir bar_open False of
                   Inl e \<Rightarrow> Inl e
                 | Inr fill \<Rightarrow>
                     (case st_entry_price st of
                        None \<Rightarrow> Inl AssertionError
                      | Some ep \<Rightarrow>
                          (case st_entry_bar st of
                             None \<Rightarrow> Inl AssertionError
                           | Some eb \<Rightarrow>
                               Inr (st\<lparr> ledger := record_trade S (ledger st)
                                                    (current_direction (position st))
                                                    eb bar_ts ep (round_to_tick fill),
                                        position := on_close (position st) \<rparr>))))))"

definition run_backtest :: "settings \<Rightarrow> Bar list \<Rightarrow> int list \<Rightarrow> error + BacktestState" where
  "run_backtest S bars signals =
     (case loop S signals 0 bars new_state of
        Inl e \<Rightarrow> Inl e
      | Inr st \<Rightarrow> force_close_at_end S st bars)"

section \<open>Tick rounding in binary64 arithmetic\<close>

text \<open>
  The engine above idealises prices as real numbers. The tie behaviour of
  \<^verbatim>\<open>round_to_tick\<close> is decided by the rounding of the float division, so this section
  embeds the same one-line function with its floating-point operations written out. A
  Python float is an IEEE binary64 value: a finite one is the real number it denotes.
\<close>

datatype pyfloat = Finite real | PosInf | NegInf | NaN

text \<open>The largest finite binary64 value.\<close>

definition f64_max :: real where
  "f64_max = (2 ^ 53 - 1) * 2 ^ 971"

text \<open>
  The binary exponent that governs the spacing of the floats around \<open>x\<close> (not below the
  exponent of the subnormal range), and that spacing: 53 significant bits.
\<close>

definition binade :: "real \<Rightarrow> int" where
  "binade x = max \<lfloor>log 2 \<bar>x\<bar>\<rfloor> (- 1022)"

definition ulp_at :: "int \<Rightarrow> real" where
  "ulp_at e = 2 powr (of_int e - 52)"

text \<open>
  Rounding to nearest, ties to the even significand, before the check of the exponent
  range: the multiple of the spacing nearest to \<open>x\<close>.
\<close>

definition f64_nearest :: "real \<Rightarrow> real" where
  "f64_nearest x =
     (if x = 0 then 0
      else of_int (py_round (x / ulp_at (binade x))) * ulp_at (binade x))"

text \<open>The float that an exact result is delivered as: it overflows to an infinity.\<close>

definition to_f64 :: "real \<Rightarrow> pyfloat" where
  "to_f64 x =
     (let y = f64_nearest x
      in if f64_max < y then PosInf
         else if y < - f64_max then NegInf
         else Finite y)"

text \<open>The constant \<^verbatim>\<open>TICK_SIZE\<close> as the float that the literal \<^verbatim>\<open>0.00005\<close> denotes.\<close>

definition TICK_SIZE_f64 :: real where
  "TICK_SIZE_f64 = f64_nearest TICK_SIZE"

text \<open>\<^verbatim>\<open>price / tick\<close> for a finite positive divisor.\<close>

definition f64_div :: "pyfloat \<Rightarrow> real \<Rightarrow> pyfloat" where
  "f64_div x t =
     (case x of
        Finite a \<Rightarrow> to_f64 (a / t)
      | PosInf \<Rightarrow> PosInf
      | NegInf \<Rightarrow> NegInf
      | NaN \<Rightarrow> NaN)"

text \<open>One-argument \<^verbatim>\<open>round\<close> of a float: it raises on an infinity and on NaN.\<close>

definition py_round_f64 :: "pyfloat \<Rightarrow> error + int" where
  "py_round_f64 x =
     (case x of
        Finite a \<Rightarrow> Inr (py_round a)
      | PosInf \<Rightarrow> Inl OverflowError
      | NegInf \<Rightarrow> Inl OverflowError
      | NaN \<Rightarrow> Inl NanToIntegerError)"

text \<open>
  \<^verbatim>\<open>k * tick\<close> for an integer \<open>k\<close>: the integer is converted to a float first, which
  raises if it is too large, and the product is rounded.
\<close>

definition int_times_f64 :: "int \<Rightarrow> real \<Rightarrow> error + pyfloat" where
  "int_times_f64 k t =
     (case to_f64 (of_int k) of
        Finite kf \<Rightarrow> Inr (to_f64 (kf * t))
      | PosInf \<Rightarrow> Inl OverflowError
      | NegInf \<Rightarrow> Inl OverflowError
      | NaN \<Rightarrow> Inl OverflowError)"

text \<open>
  \<^verbatim>\<open>round(x, n)\<close> of a float: the exact value is rounded to \<open>n\<close> decimals, ties to even,
  and the decimal is delivered as the nearest float; infinities and NaN are returned.
\<close>

definition py_round_ndigits_f64 :: "pyfloat \<Rightarrow> nat \<Rightarrow> pyfloat" where
  "py_round_ndigits_f64 x n =
     (case x of
        Finite a \<Rightarrow> to_f64 (of_int (py_round (a * 10 ^ n)) / 10 ^ n)
      | PosInf \<Rightarrow> PosInf
      | NegInf \<Rightarrow> NegInf
      | NaN \<Rightarrow> NaN)"

text \<open>\<^verbatim>\<open>round(round(price / tick) * tick, 10)\<close> with \<^verbatim>\<open>tick = C.TICK_SIZE\<close>.\<close>

definition round_to_tick_f64 :: "pyfloat \<Rightarrow> error + pyfloat" where
  "round_to_tick_f64 price =
     (let tick = TICK_SIZE_f64
      in case py_round_f64 (f64_div price tick) of
           Inl e \<Rightarrow> Inl e
         | Inr k \<Rightarrow>
             (case int_times_f64 k tick of
                Inl e \<Rightarrow> Inl e
              | Inr m \<Rightarrow> Inr (py_round_ndigits_f64 m 10)))"

section \<open>Invariants and example inputs\<close>

text \<open>
  The consistency of a run state between two iterations of the loop: the entry cache is
  filled exactly when a position is open, the position manager's bar index is \<open>-1\<close>, and a
  queued order either opens from a flat position or closes the direction that is held.
\<close>

definition state_inv :: "BacktestState \<Rightarrow> bool" where
  "state_inv st =
     ((current_direction (position st) = FLAT) = (st_entry_price st = None)
      \<and> (current_direction (position st) = FLAT) = (st_entry_bar st = None)
      \<and> entry_bar_index (position st) = - 1
      \<and> (case pending st of
            None \<Rightarrow> True
          | Some p \<Rightarrow>
              open_direction p \<noteq> Some FLAT
              \<and> (case close_direction p of
                    None \<Rightarrow> current_direction (position st) = FLAT
                             \<and> open_direction p \<noteq> None
                  | Some cd \<Rightarrow> cd = current_direction (position st) \<and> cd \<noteq> FLAT)))"

text \<open>A queued roll close can be filled only if the roll-close tick count is defined.\<close>

definition roll_close_ready :: "settings \<Rightarrow> BacktestState \<Rightarrow> bool" where
  "roll_close_ready S st =
     (case pending st of
        None \<Rightarrow> True
      | Some p \<Rightarrow> exit_reason p \<noteq> ''roll'' \<or> ROLL_CLOSE_SLIPPAGE_TICKS S \<noteq> None)"

definition roll_configured :: "settings \<Rightarrow> bool" where
  "roll_configured S =
     (ROLL_CLOSE_SLIPPAGE_TICKS S \<noteq> None \<and> ROLL_FREEZE_BARS_POST S \<noteq> None)"

text \<open>What the engine reads of a bar: timestamp, open price and roll flag.\<close>

definition bar_inputs :: "Bar \<Rightarrow> int \<times> real \<times> bool option" where
  "bar_inputs bar = (col_ts bar, col_open bar, contains_roll bar)"

text \<open>The order that signal evaluation queues to close a held direction without reopening.\<close>

definition signal_close_order :: "Direction \<Rightarrow> int option \<Rightarrow> PendingOrder" where
  "signal_close_order d sb =
     \<lparr> close_direction = Some d, open_direction = None, signal_bar = sb,
       exit_reason = ''signal'' \<rparr>"

text \<open>The order that a roll bar queues for a held direction.\<close>

definition roll_close_order :: "Direction \<Rightarrow> int option \<Rightarrow> PendingOrder" where
  "roll_close_order d sb =
     \<lparr> close_direction = Some d, open_direction = None, signal_bar = sb,
       exit_reason = ''roll'' \<rparr>"

text \<open>A settings module that also defines the two roll constants.\<close>

definition settings_with_roll :: settings where
  "settings_with_roll = settings_py\<lparr> ROLL_CLOSE_SLIPPAGE_TICKS := Some 2,
                                     ROLL_FREEZE_BARS_POST := Some 3 \<rparr>"

definition bar_at :: "int \<Rightarrow> real \<Rightarrow> bool option \<Rightarrow> Bar" where
  "bar_at ts px roll =
     \<lparr> col_ts = ts, col_open = px, col_high = px, col_low = px, col_close = px,
       contains_roll = roll \<rparr>"

text \<open>The scenario of the specification: four bars, signals 0, +1, 0, -1.\<close>

definition ex_bars :: "Bar list" where
  "ex_bars = [bar_at 0 (11000 / 10000) None, bar_at 300 (11010 / 10000) None,
              bar_at 600 (11005 / 10000) None, bar_at 900 (10995 / 10000) None]"

definition ex_signals :: "int list" where
  "ex_signals = [0, 1, 0, - 1]"

text \<open>A long signal on the bar before a roll bar.\<close>

definition roll_bars :: "Bar list" where
  "roll_bars = [bar_at 0 (11000 / 10000) (Some False), bar_at 300 (11010 / 10000) (Some True),
                bar_at 600 (11005 / 10000) (Some False)]"

definition roll_signals :: "int list" where
  "roll_signals = [1, 0, 0]"

text \<open>A long position held since bar 300, with a roll close queued.\<close>

definition long_state_roll_pending :: BacktestState where
  "long_state_roll_pending =
     \<lparr> position = \<lparr> current_direction = LONG, entry_bar_index = - 1 \<rparr>,
       ledger = new_ledger,
       pending = Some (roll_close_order LONG (Some 300)),
       st_entry_price = Some (110105 / 100000),
       st_entry_bar = Some 300,
       roll_freeze_remaining = 3 \<rparr>"

text \<open>The same four bars with other highs, lows and closes.\<close>

definition ex_bars_alt :: "Bar list" where
  "ex_bars_alt = map (\<lambda>b. b\<lparr> col_high := col_open b + 1, col_low := col_open b - 1,
                               col_close := 0 \<rparr>) ex_bars"

text \<open>The scenario after its second bar: the long entry of bar 300 is queued.\<close>

definition ex_queued_state :: BacktestState where
  "ex_queued_state =
     new_state\<lparr> pending := Some \<lparr> close_direction = None, open_direction = Some LONG,
                                   signal_bar = Some 300, exit_reason = ''signal'' \<rparr> \<rparr>"

text \<open>The scenario after its third bar: the entry was filled at the open of bar 600.\<close>

definition ex_filled_state :: BacktestState where
  "ex_filled_state =
     new_state\<lparr> position := \<lparr> current_direction = LONG, entry_bar_index = - 1 \<rparr>,
                st_entry_price := Some (110055 / 100000),
                st_entry_bar := Some 600 \<rparr>"

text \<open>
  The number of open legs that the loop executes from a state on: an iteration executes
  one exactly when the order pending at its start has an open direction.
\<close>

definition has_open_leg :: "BacktestState \<Rightarrow> bool" where
  "has_open_leg st =
     (case pending st of
        None \<Rightarrow> False
      | Some p \<Rightarrow> (case open_direction p of None \<Rightarrow> False | Some d \<Rightarrow> True))"

fun opens_filled :: "settings \<Rightarrow> int list \<Rightarrow> nat \<Rightarrow> Bar list \<Rightarrow> BacktestState \<Rightarrow> nat" where
  "opens_filled S signals i [] st = 0"
| "opens_filled S signals i (bar # bars) st =
     (case step S signals i bar st of
        Inl e \<Rightarrow> 0
      | Inr st' \<Rightarrow> (if has_open_leg st then 1 else 0) + opens_filled S signals (Suc i) bars st')"

text \<open>One if a position is open, zero if not.\<close>

definition open_positions :: "BacktestState \<Rightarrow> nat" where
  "open_positions st = (if current_direction (position st) = FLAT then 0 else 1)"

section \<open>Properties\<close>

subsection \<open>Rounding to an integer\<close>

lemma py_round_of_int: "py_round (of_int k) = k"
  by (simp add: py_round_def)

lemma py_round_error: "\<bar>of_int (py_round x) - x\<bar> \<le> 1 / 2"
  unfolding py_round_def Let_def by (auto simp: abs_le_iff)

lemma py_round_tie_even:
  assumes "\<bar>of_int (py_round x) - x\<bar> = 1 / 2"
  shows "even (py_round x)"
proof -
  let ?f = "\<lfloor>x\<rfloor>"
  let ?d = "x - of_int ?f"
  have d: "0 \<le> ?d" "?d < 1" by linarith+
  show ?thesis
  proof (cases "?d < 1 / 2")
    case True
    then have "py_round x = ?f" by (simp add: py_round_def)
    moreover have "\<bar>of_int ?f - x\<bar> = ?d" using d by linarith
    ultimately show ?thesis using assms True by simp
  next
    case False
    show ?thesis
    proof (cases "1 / 2 < ?d")
      case True
      then have "py_round x = ?f + 1" using False by (simp add: py_round_def Let_def)
      moreover have "\<bar>of_int (?f + 1) - x\<bar> = 1 - ?d" using d by simp
      ultimately show ?thesis using assms True by simp
    next
      case F2: False
      with False show ?thesis by (simp add: py_round_def Let_def)
    qed
  qed
qed

lemma py_round_nearest: "\<bar>of_int (py_round x) - x\<bar> \<le> \<bar>of_int m - x\<bar>"
proof (cases "m = py_round x")
  case True
  then show ?thesis by simp
next
  case False
  then have "1 \<le> \<bar>m - py_round x\<bar>" by linarith
  then have "(1::real) \<le> \<bar>of_int m - of_int (py_round x)\<bar>"
    by (metis of_int_1 of_int_abs of_int_diff of_int_le_iff)
  with py_round_error [of x] show ?thesis by linarith
qed

lemmas round_eval = round_to_tick_def py_round_ndigits_def py_round_def TICK_SIZE_def Let_def

subsection \<open>Fill price\<close>

lemma mk_Direction_neg: "mk_Direction (- dvalue d) = Inr (case d of FLAT \<Rightarrow> FLAT | LONG \<Rightarrow> SHORT | SHORT \<Rightarrow> LONG)"
  by (cases d) (simp_all add: mk_Direction_def)

lemma mk_Direction_Inr: "mk_Direction v = Inr d \<Longrightarrow> dvalue d = v"
  by (auto simp: mk_Direction_def split: if_splits)

lemma compute_fill_price_standard:
  "d \<noteq> FLAT \<Longrightarrow> compute_fill_price S d p False =
     Inr (if d = LONG then p + of_int (SLIPPAGE_TICKS S) * TICK_SIZE
          else p - of_int (SLIPPAGE_TICKS S) * TICK_SIZE)"
  by (simp add: compute_fill_price_def)

lemma compute_fill_price_not_flat_error:
  "d \<noteq> FLAT \<Longrightarrow> compute_fill_price S d p r \<noteq> Inl FlatFillError"
  by (auto simp: compute_fill_price_def Let_def split: option.splits)

lemma compute_fill_price_error_cases:
  "compute_fill_price S d p r = Inl e \<Longrightarrow>
     (d = FLAT \<and> e = FlatFillError)
     \<or> (r \<and> ROLL_CLOSE_SLIPPAGE_TICKS S = None \<and> e = AttributeError ''ROLL_CLOSE_SLIPPAGE_TICKS'')"
  by (auto simp: compute_fill_price_def Let_def split: option.splits if_splits)

subsection \<open>execute pending under the invariant\<close>

lemma close_leg_inv:
  assumes "state_inv st" and "pending st = Some p"
  shows "(close_direction p \<noteq> None \<and> exit_reason p = ''roll'' \<and> ROLL_CLOSE_SLIPPAGE_TICKS S = None
           \<and> close_leg S p st ts px = Inl (AttributeError ''ROLL_CLOSE_SLIPPAGE_TICKS''))
         \<or> (\<exists>st1. close_leg S p st ts px = Inr st1
               \<and> current_direction (position st1) = FLAT
               \<and> entry_bar_index (position st1) = - 1
               \<and> st_entry_price st1 = None \<and> st_entry_bar st1 = None
               \<and> pending st1 = pending st
               \<and> roll_freeze_remaining st1 = roll_freeze_remaining st)"
proof (cases "close_direction p")
  case None
  with assms show ?thesis by (auto simp: close_leg_def state_inv_def)
next
  case (Some cd)
  with assms have cd: "cd = current_direction (position st)" "cd \<noteq> FLAT"
    unfolding state_inv_def by auto
  from assms(1) cd have "st_entry_price st \<noteq> None" "st_entry_bar st \<noteq> None"
    unfolding state_inv_def by blast+
  then obtain ep eb where e: "st_entry_price st = Some ep" "st_entry_bar st = Some eb"
    by blast
  obtain od where od: "mk_Direction (- dvalue cd) = Inr od" "od \<noteq> FLAT"
    using cd(2) by (cases cd) (simp_all add: mk_Direction_def)
  show ?thesis
  proof (cases "compute_fill_price S od px (exit_reason p = ''roll'')")
    case (Inl e')
    with compute_fill_price_error_cases [OF Inl] od(2) Some od(1) show ?thesis
      by (auto simp: close_leg_def)
  next
    case (Inr fill)
    with Some od e show ?thesis by (simp add: close_leg_def on_close_def)
  qed
qed

lemma open_leg_flat:
  assumes "open_direction p \<noteq> Some FLAT"
  shows "\<exists>st2. open_leg S p st ts px = Inr st2
           \<and> ledger st2 = ledger st \<and> pending st2 = pending st
           \<and> roll_freeze_remaining st2 = roll_freeze_remaining st
           \<and> (case open_direction p of
                 None \<Rightarrow> st2 = st
               | Some od \<Rightarrow> current_direction (position st2) = od
                    \<and> entry_bar_index (position st2) = - 1
                    \<and> st_entry_bar st2 = Some ts
                    \<and> st_entry_price st2 = Some (round_to_tick
                         (if od = LONG then px + of_int (SLIPPAGE_TICKS S) * TICK_SIZE
                          else px - of_int (SLIPPAGE_TICKS S) * TICK_SIZE)))"
proof (cases "open_direction p")
  case None
  then show ?thesis by (simp add: open_leg_def)
next
  case (Some od)
  with assms have "od \<noteq> FLAT" by simp
  with Some show ?thesis
    by (simp add: open_leg_def compute_fill_price_standard on_open_def)
qed

lemma execute_pending_inv:
  assumes "state_inv st" and "pending st = Some p"
  shows "(close_direction p \<noteq> None \<and> exit_reason p = ''roll'' \<and> ROLL_CLOSE_SLIPPAGE_TICKS S = None
           \<and> execute_pending S st ts px = Inl (AttributeError ''ROLL_CLOSE_SLIPPAGE_TICKS''))
         \<or> (\<exists>st'. execute_pending S st ts px = Inr st' \<and> state_inv st' \<and> pending st' = None
               \<and> roll_freeze_remaining st' = roll_freeze_remaining st)"
proof -
  from assms have nf: "open_direction p \<noteq> Some FLAT" by (simp add: state_inv_def)
  from close_leg_inv [OF assms, of S ts px] show ?thesis
  proof
    assume "close_direction p \<noteq> None \<and> exit_reason p = ''roll'' \<and> ROLL_CLOSE_SLIPPAGE_TICKS S = None
           \<and> close_leg S p st ts px = Inl (AttributeError ''ROLL_CLOSE_SLIPPAGE_TICKS'')"
    with assms(2) show ?thesis by (simp add: execute_pending_def)
  next
    assume "\<exists>st1. close_leg S p st ts px = Inr st1
               \<and> current_direction (position st1) = FLAT
               \<and> entry_bar_index (position st1) = - 1
               \<and> st_entry_price st1 = None \<and> st_entry_bar st1 = None
               \<and> pending st1 = pending st
               \<and> roll_freeze_remaining st1 = roll_freeze_remaining st"
    then obtain st1 where st1: "close_leg S p st ts px = Inr st1"
        "current_direction (position st1) = FLAT" "entry_bar_index (position st1) = - 1"
        "st_entry_price st1 = None" "st_entry_bar st1 = None"
        "roll_freeze_remaining st1 = roll_freeze_remaining st" by blast
    from open_leg_flat [OF nf, of S st1 ts px] obtain st2 where st2:
        "open_leg S p st1 ts px = Inr st2"
        "roll_freeze_remaining st2 = roll_freeze_remaining st1"
        "case open_direction p of
                 None \<Rightarrow> st2 = st1
               | Some od \<Rightarrow> current_direction (position st2) = od
                    \<and> entry_bar_index (position st2) = - 1
                    \<and> st_entry_bar st2 = Some ts
                    \<and> st_entry_price st2 = Some (round_to_tick
                         (if od = LONG then px + of_int (SLIPPAGE_TICKS S) * TICK_SIZE
                          else px - of_int (SLIPPAGE_TICKS S) * TICK_SIZE))" by blast
    have "state_inv (st2\<lparr>pending := None\<rparr>)"
      using st1(2-5) st2(3) nf by (cases "open_direction p") (auto simp: state_inv_def)
    with st1(1,6) st2(1,2) assms(2) show ?thesis by (simp add: execute_pending_def)
  qed
qed

subsection \<open>What a step appends to the ledger\<close>

lemma close_leg_trades:
  assumes "close_leg S p st ts px = Inr st1"
  shows "trades (ledger st1) = trades (ledger st)
         \<or> (\<exists>tid d eb ep xp. trades (ledger st1) =
                trades (ledger st) @ [build_trade S tid d eb ts ep xp])"
  using assms
  by (fastforce simp: close_leg_def record_trade_def split: option.splits sum.splits)

lemma open_leg_ledger: "open_leg S p st ts px = Inr st2 \<Longrightarrow> ledger st2 = ledger st"
  by (auto simp: open_leg_def split: option.splits sum.splits)

lemma execute_pending_trades:
  assumes "execute_pending S st ts px = Inr st'"
  shows "trades (ledger st') = trades (ledger st)
         \<or> (\<exists>tid d eb ep xp. trades (ledger st') =
                trades (ledger st) @ [build_trade S tid d eb ts ep xp])"
proof -
  from assms obtain p st1 st2 where
    "close_leg S p st ts px = Inr st1" "open_leg S p st1 ts px = Inr st2"
    "st' = st2\<lparr>pending := None\<rparr>"
    by (auto simp: execute_pending_def split: option.splits sum.splits)
  with close_leg_trades [of S p st ts px st1] open_leg_ledger [of S p st1 ts px st2]
  show ?thesis by simp
qed

lemma evaluate_bar_ledger:
  "evaluate_bar S signals i bar st = Inr st' \<Longrightarrow> ledger st' = ledger st"
  by (auto simp: evaluate_bar_def Let_def split: option.splits sum.splits if_splits)

lemma evaluate_bar_position:
  "evaluate_bar S signals i bar st = Inr st' \<Longrightarrow>
     position st' = position st \<and> st_entry_price st' = st_entry_price st
     \<and> st_entry_bar st' = st_entry_bar st"
  by (auto simp: evaluate_bar_def Let_def split: option.splits sum.splits if_splits)

lemma step_trades:
  assumes "step S signals i bar st = Inr st'"
  shows "trades (ledger st') = trades (ledger st)
         \<or> (\<exists>tid d eb ep xp. trades (ledger st') =
                trades (ledger st) @ [build_trade S tid d eb (col_ts bar) ep xp])"
proof (cases "pending st")
  case None
  with assms show ?thesis by (simp add: step_def evaluate_bar_ledger)
next
  case (Some p)
  with assms obtain st1 where
    "execute_pending S st (col_ts bar) (col_open bar) = Inr st1"
    "evaluate_bar S signals i bar st1 = Inr st'"
    by (auto simp: step_def split: sum.splits)
  with execute_pending_trades [of S st "col_ts bar" "col_open bar" st1]
    evaluate_bar_ledger [of S signals i bar st1 st']
  show ?thesis by simp
qed

lemma loop_trades_pred:
  assumes "\<And>tid d eb xb ep xp. xb \<in> col_ts ` set bars \<Longrightarrow> P (build_trade S tid d eb xb ep xp)"
    and "\<forall>t\<in>set (trades (ledger st)). P t"
    and "loop S signals i bars st = Inr st'"
  shows "\<forall>t\<in>set (trades (ledger st')). P t"
  using assms
proof (induction bars arbitrary: i st)
  case Nil
  then show ?case by simp
next
  case (Cons bar bars)
  from Cons.prems(3) obtain st1 where st1: "step S signals i bar st = Inr st1"
    "loop S signals (Suc i) bars st1 = Inr st'"
    by (auto split: sum.splits)
  have "P (build_trade S tid d eb (col_ts bar) ep xp)" for tid d eb ep xp
    by (rule Cons.prems(1)) simp
  with step_trades [OF st1(1)] Cons.prems(2)
  have "\<forall>t\<in>set (trades (ledger st1)). P t" by auto
  moreover have "\<And>tid d eb xb ep xp. xb \<in> col_ts ` set bars \<Longrightarrow> P (build_trade S tid d eb xb ep xp)"
    using Cons.prems(1) by simp
  ultimately show ?case using Cons.IH st1(2) by blast
qed

lemma force_close_trades:
  assumes "force_close_at_end S st bars = Inr st'"
  shows "trades (ledger st') = trades (ledger st)
         \<or> (bars \<noteq> [] \<and> (\<exists>tid d eb ep xp. trades (ledger st') =
                trades (ledger st) @ [build_trade S tid d eb (col_ts (last bars)) ep xp]))"
  using assms
  by (fastforce simp: force_close_at_end_def Let_def record_trade_def
           split: option.splits sum.splits if_splits)

lemma run_backtest_trades_pred:
  assumes "\<And>tid d eb xb ep xp. xb \<in> col_ts ` set bars \<Longrightarrow> P (build_trade S tid d eb xb ep xp)"
    and "run_backtest S bars signals = Inr st"
  shows "\<forall>t\<in>set (trades (ledger st)). P t"
proof -
  from assms(2) obtain lp where lp: "loop S signals 0 bars new_state = Inr lp"
    "force_close_at_end S lp bars = Inr st"
    by (auto simp: run_backtest_def split: sum.splits)
  have a: "\<forall>t\<in>set (trades (ledger lp)). P t"
    by (rule loop_trades_pred [where P = P, OF _ _ lp(1)])
       (use assms(1) in \<open>auto simp: new_state_def new_ledger_def\<close>)
  from force_close_trades [OF lp(2)] show ?thesis
  proof
    assume "trades (ledger st) = trades (ledger lp)"
    with a show ?thesis by simp
  next
    assume b: "bars \<noteq> [] \<and> (\<exists>tid d eb ep xp. trades (ledger st) =
                trades (ledger lp) @ [build_trade S tid d eb (col_ts (last bars)) ep xp])"
    then have "col_ts (last bars) \<in> col_ts ` set bars" by simp
    then have "P (build_trade S tid d eb (col_ts (last bars)) ep xp)" for tid d eb ep xp
      by (rule assms(1))
    with a b show ?thesis by auto
  qed
qed

text \<open>
  Claim C3: every trade of the ledger that a run returns has
  \<open>net_pnl = direction \<times> (exit_price - entry_price) \<times> (TICK_VALUE / TICK_SIZE)
  - 2 \<times> COMMISSION_PER_SIDE\<close>, with no further slippage term, and its win flag is set
  exactly when \<open>net_pnl\<close> is positive.
\<close>

theorem net_pnl_formula:
  assumes "run_backtest S bars signals = Inr st"
  shows "\<forall>t\<in>set (trades (ledger st)).
           net_pnl t = of_int (dvalue (direction t)) * (exit_price t - entry_price t)
                         * (TICK_VALUE / TICK_SIZE) - 2 * COMMISSION_PER_SIDE S
           \<and> is_winner t = (0 < net_pnl t)"
  by (rule run_backtest_trades_pred [OF _ assms]) (simp add: build_trade_def Let_def)

subsection \<open>Signal evaluation under the invariant\<close>

lemma evaluate_signal_Inr:
  assumes "evaluate_signal pm sv bi = Inr a"
  shows "(\<not> close_existing a \<and> \<not> open_new a)
         \<or> (open_new a \<and> new_direction a \<noteq> FLAT \<and> close_existing a = (current_direction pm \<noteq> FLAT))"
  using assms
  by (auto simp: evaluate_signal_def no_action_def is_flat_def mk_Direction_def
           split: if_splits sum.splits)

lemma evaluate_signal_errors:
  assumes "evaluate_signal pm sv bi = Inl e"
  shows "e = InvalidDirection sv \<and> sv \<notin> {- 1, 0, 1}"
  using assms
  by (auto simp: evaluate_signal_def mk_Direction_def split: if_splits sum.splits)

lemma evaluate_bar_inv:
  assumes "state_inv st" and "pending st = None" and "evaluate_bar S signals i bar st = Inr st'"
  shows "state_inv st'"
proof (cases "is_roll_bar bar")
  case True
  with assms show ?thesis
    by (auto simp: evaluate_bar_def Let_def state_inv_def is_flat_def split: option.splits)
next
  case nr: False
  show ?thesis
  proof (cases "0 < roll_freeze_remaining st")
    case True
    with nr assms show ?thesis by (auto simp: evaluate_bar_def state_inv_def)
  next
    case False
    with nr assms(3) obtain sv a where a: "evaluate_signal (position st) sv (int i) = Inr a"
      and st': "st' = (if close_existing a \<or> open_new a
                 then st\<lparr> pending := Some \<lparr> close_direction =
                        (if close_existing a then Some (current_direction (position st)) else None),
                      open_direction = (if open_new a then Some (new_direction a) else None),
                      signal_bar = Some (col_ts bar), exit_reason = ''signal'' \<rparr> \<rparr>
                 else st\<lparr> pending := None \<rparr>)"
      by (auto simp: evaluate_bar_def split: sum.splits if_splits)
    from evaluate_signal_Inr [OF a] assms(1) show ?thesis
      unfolding st' by (auto simp: state_inv_def)
  qed
qed

lemma evaluate_bar_errors:
  assumes "evaluate_bar S signals i bar st = Inl e"
  shows "(is_roll_bar bar \<and> ROLL_FREEZE_BARS_POST S = None \<and> e = AttributeError ''ROLL_FREEZE_BARS_POST'')
         \<or> (\<not> i < length signals \<and> e = IndexError)
         \<or> (i < length signals \<and> signals ! i \<notin> {- 1, 0, 1} \<and> e = InvalidDirection (signals ! i))"
proof (cases "is_roll_bar bar")
  case True
  with assms show ?thesis by (auto simp: evaluate_bar_def Let_def split: option.splits)
next
  case nr: False
  show ?thesis
  proof (cases "i < length signals")
    case True
    with nr assms have "evaluate_signal (position st) (signals ! i) (int i) = Inl e"
      by (auto simp: evaluate_bar_def signal_at_def split: if_splits sum.splits)
    from evaluate_signal_errors [OF this] True show ?thesis by simp
  next
    case False
    with nr assms show ?thesis
      by (auto simp: evaluate_bar_def signal_at_def split: if_splits)
  qed
qed

lemma evaluate_bar_roll_ready:
  assumes "evaluate_bar S signals i bar st = Inr st'" and "pending st = None"
    and "is_roll_bar bar \<longrightarrow> roll_configured S"
  shows "roll_close_ready S st'"
  using assms
  by (auto simp: evaluate_bar_def Let_def roll_close_ready_def roll_configured_def
           split: option.splits sum.splits if_splits)

subsection \<open>One iteration\<close>

lemma step_cases:
  assumes "state_inv st"
  shows "(\<exists>p. pending st = Some p \<and> close_direction p \<noteq> None \<and> exit_reason p = ''roll''
               \<and> ROLL_CLOSE_SLIPPAGE_TICKS S = None
               \<and> step S signals i bar st = Inl (AttributeError ''ROLL_CLOSE_SLIPPAGE_TICKS''))
         \<or> (\<exists>st1. state_inv st1 \<and> pending st1 = None
               \<and> (pending st = None \<longrightarrow> st1 = st)
               \<and> (pending st \<noteq> None \<longrightarrow> execute_pending S st (col_ts bar) (col_open bar) = Inr st1)
               \<and> step S signals i bar st = evaluate_bar S signals i bar st1)"
proof (cases "pending st")
  case None
  with assms show ?thesis by (auto simp: step_def)
next
  case (Some p)
  from execute_pending_inv [OF assms Some, of S "col_ts bar" "col_open bar"] Some
  show ?thesis by (auto simp: step_def)
qed

lemma step_inv:
  assumes "state_inv st" and "step S signals i bar st = Inr st'"
  shows "state_inv st'"
  using step_cases [OF assms(1), of S signals i bar] assms(2)
  by (auto intro: evaluate_bar_inv)

lemma step_errors:
  assumes "state_inv st" and "step S signals i bar st = Inl e"
  shows "e \<noteq> FlatFillError \<and> e \<noteq> AssertionError"
  using step_cases [OF assms(1), of S signals i bar] assms(2)
  by (auto dest: evaluate_bar_errors evaluate_bar_errors [OF sym])

lemma step_total:
  assumes "state_inv st" and "roll_close_ready S st"
    and "is_roll_bar bar \<longrightarrow> roll_configured S"
    and "i < length signals" and "signals ! i \<in> {- 1, 0, 1}"
  shows "\<exists>st'. step S signals i bar st = Inr st' \<and> roll_close_ready S st'"
proof -
  from step_cases [OF assms(1), of S signals i bar] assms(2)
  obtain st1 where st1: "pending st1 = None"
      "step S signals i bar st = evaluate_bar S signals i bar st1"
    by (auto simp: roll_close_ready_def)
  show ?thesis
  proof (cases "evaluate_bar S signals i bar st1")
    case (Inl e)
    from evaluate_bar_errors [OF Inl] assms(3-5) show ?thesis
      by (auto simp: roll_configured_def)
  next
    case (Inr st')
    with evaluate_bar_roll_ready [OF Inr st1(1) assms(3)] st1(2) show ?thesis by simp
  qed
qed

subsection \<open>The loop\<close>

lemma loop_inv:
  assumes "state_inv st" and "loop S signals i bars st = Inr st'"
  shows "state_inv st'"
  using assms
proof (induction bars arbitrary: i st)
  case Nil
  then show ?case by simp
next
  case (Cons bar bars)
  from Cons.prems(2) obtain st1 where st1: "step S signals i bar st = Inr st1"
    "loop S signals (Suc i) bars st1 = Inr st'"
    by (auto split: sum.splits)
  from step_inv [OF Cons.prems(1) st1(1)] st1(2) show ?case by (rule Cons.IH)
qed

lemma loop_errors:
  assumes "state_inv st" and "loop S signals i bars st = Inl e"
  shows "e \<noteq> FlatFillError \<and> e \<noteq> AssertionError"
  using assms
proof (induction bars arbitrary: i st)
  case Nil
  then show ?case by simp
next
  case (Cons bar bars)
  show ?case
  proof (cases "step S signals i bar st")
    case (Inl e')
    with Cons.prems(2) have "e' = e" by simp
    with step_errors [OF Cons.prems(1) Inl] show ?thesis by simp
  next
    case (Inr st1)
    with Cons.prems(2) have "loop S signals (Suc i) bars st1 = Inl e" by simp
    with step_inv [OF Cons.prems(1) Inr] show ?thesis by (rule Cons.IH)
  qed
qed

lemma loop_total:
  assumes "state_inv st" and "roll_close_ready S st"
    and "(\<exists>b\<in>set bars. is_roll_bar b) \<longrightarrow> roll_configured S"
    and "i + length bars \<le> length signals" and "\<forall>s\<in>set signals. s \<in> {- 1, 0, 1}"
  shows "\<exists>st'. loop S signals i bars st = Inr st'"
  using assms
proof (induction bars arbitrary: i st)
  case Nil
  then show ?case by simp
next
  case (Cons bar bars)
  have "i < length signals" using Cons.prems(4) by simp
  moreover from this Cons.prems(5) have "signals ! i \<in> {- 1, 0, 1}" by (meson nth_mem)
  moreover have "is_roll_bar bar \<longrightarrow> roll_configured S" using Cons.prems(3) by simp
  ultimately obtain st1 where st1: "step S signals i bar st = Inr st1" "roll_close_ready S st1"
    using step_total [OF Cons.prems(1,2)] by blast
  have "\<exists>st'. loop S signals (Suc i) bars st1 = Inr st'"
  proof (rule Cons.IH)
    show "state_inv st1" by (rule step_inv [OF Cons.prems(1) st1(1)])
    show "roll_close_ready S st1" by (rule st1(2))
    show "(\<exists>b\<in>set bars. is_roll_bar b) \<longrightarrow> roll_configured S" using Cons.prems(3) by simp
    show "Suc i + length bars \<le> length signals" using Cons.prems(4) by simp
    show "\<forall>s\<in>set signals. s \<in> {- 1, 0, 1}" by (rule Cons.prems(5))
  qed
  with st1(1) show ?case by simp
qed

lemma new_state_inv: "state_inv new_state"
  by (simp add: state_inv_def new_state_def new_position_manager_def)

lemma new_state_roll_ready: "roll_close_ready S new_state"
  by (simp add: roll_close_ready_def new_state_def)

subsection \<open>The forced close\<close>

lemma force_close_inv:
  assumes "state_inv st" and "bars \<noteq> []"
  shows "\<exists>st'. force_close_at_end S st bars = Inr st' \<and> current_direction (position st') = FLAT"
proof (cases "current_direction (position st) = FLAT")
  case True
  then show ?thesis by (simp add: force_close_at_end_def is_flat_def)
next
  case False
  with assms(1) obtain ep eb where "st_entry_price st = Some ep" "st_entry_bar st = Some eb"
    unfolding state_inv_def by auto
  moreover obtain od where "mk_Direction (- dvalue (current_direction (position st))) = Inr od" "od \<noteq> FLAT"
    using False by (cases "current_direction (position st)") (simp_all add: mk_Direction_def)
  ultimately show ?thesis using False assms(2)
    by (simp add: force_close_at_end_def is_flat_def Let_def compute_fill_price_standard on_close_def)
qed

lemma force_close_errors:
  assumes "state_inv st" and "force_close_at_end S st bars = Inl e"
  shows "e = IndexError \<and> bars = []"
  using assms force_close_inv [OF assms(1), of bars S]
  by (cases "bars = []") (auto simp: force_close_at_end_def split: if_splits)

text \<open>
  Claim C10: the fill computation rejects the direction \<open>FLAT\<close> with its error before
  anything else, whatever the price and the roll flag; and no run of the engine, on any
  bars and signals, ends in that error: the directions that the pending-order protocol
  passes to the fill computation are never \<open>FLAT\<close>.
\<close>

theorem flat_fill_rejected_and_unreachable:
  "compute_fill_price S FLAT p r = Inl FlatFillError
   \<and> run_backtest S bars signals \<noteq> Inl FlatFillError"
proof
  show "compute_fill_price S FLAT p r = Inl FlatFillError"
    by (simp add: compute_fill_price_def)
  show "run_backtest S bars signals \<noteq> Inl FlatFillError"
  proof (cases "loop S signals 0 bars new_state")
    case (Inl e)
    with loop_errors [OF new_state_inv Inl] show ?thesis by (simp add: run_backtest_def)
  next
    case (Inr lp)
    have "force_close_at_end S lp bars \<noteq> Inl FlatFillError"
      using force_close_errors [OF loop_inv [OF new_state_inv Inr]] by blast
    with Inr show ?thesis by (simp add: run_backtest_def)
  qed
qed

lemmas engine_eval =
  run_backtest_def step_def evaluate_bar_def execute_pending_def close_leg_def open_leg_def
  force_close_at_end_def new_state_def new_ledger_def new_position_manager_def is_flat_def
  is_roll_bar_def signal_at_def evaluate_signal_def mk_Direction_def no_action_def
  compute_fill_price_def round_to_tick_def py_round_ndigits_def py_round_def TICK_SIZE_def
  TICK_VALUE_def Let_def on_open_def on_close_def record_trade_def build_trade_def
  settings_py_def settings_with_roll_def bar_at_def ex_bars_def ex_signals_def
  roll_bars_def roll_signals_def

subsection \<open>The scenario of the specification\<close>

theorem net_pnl_formula_witness:
  "\<exists>st. run_backtest settings_py ex_bars ex_signals = Inr st
      \<and> map net_pnl (trades (ledger st)) = [- 1425 / 10]
      \<and> (\<forall>t\<in>set (trades (ledger st)).
           net_pnl t = of_int (dvalue (direction t)) * (exit_price t - entry_price t)
                         * (TICK_VALUE / TICK_SIZE) - 2 * COMMISSION_PER_SIDE settings_py
           \<and> is_winner t = (0 < net_pnl t))"
proof -
  have "\<exists>st. run_backtest settings_py ex_bars ex_signals = Inr st
          \<and> map net_pnl (trades (ledger st)) = [- 1425 / 10]"
    by (simp add: engine_eval)
  then obtain st where st: "run_backtest settings_py ex_bars ex_signals = Inr st"
    "map net_pnl (trades (ledger st)) = [- 1425 / 10]" by auto
  from net_pnl_formula [OF st(1)]
  have p: "\<forall>t\<in>set (trades (ledger st)).
           net_pnl t = of_int (dvalue (direction t)) * (exit_price t - entry_price t)
                         * (TICK_VALUE / TICK_SIZE) - 2 * COMMISSION_PER_SIDE settings_py
           \<and> is_winner t = (0 < net_pnl t)" .
  show ?thesis by (intro exI [of _ st] conjI st p)
qed

subsection \<open>Roll closes\<close>

lemma evaluate_bar_roll_queues:
  assumes "is_roll_bar bar" and "current_direction (position st) \<noteq> FLAT"
    and "ROLL_FREEZE_BARS_POST S = Some n"
  shows "evaluate_bar S signals i bar st =
           Inr (st\<lparr> pending := Some (roll_close_order (current_direction (position st))
                                                        (Some (col_ts bar))),
                    roll_freeze_remaining := n \<rparr>)"
  using assms by (simp add: evaluate_bar_def is_flat_def roll_close_order_def)

text \<open>
  Claim C2: when the settings define \<open>ROLL_CLOSE_SLIPPAGE_TICKS = k\<close>, the order that
  closes a position with exit reason \<^verbatim>\<open>"roll"\<close> is filled with \<open>k\<close> ticks of slippage and
  not with the standard count: the sell order that closes a LONG fills at
  \<open>p - k \<times> TICK_SIZE\<close>, the buy order that closes a SHORT at \<open>p + k \<times> TICK_SIZE\<close>,
  where \<open>p\<close> is the open of the execution bar, and the trade that the execution of the
  pending roll close records has that fill, rounded to the tick, as its exit price.
\<close>

theorem roll_close_uses_roll_slippage:
  assumes "ROLL_CLOSE_SLIPPAGE_TICKS S = Some k"
    and "pending st = Some (roll_close_order cd sb)" and "cd \<noteq> FLAT"
    and "st_entry_price st = Some ep" and "st_entry_bar st = Some eb"
  shows "compute_fill_price S SHORT p True = Inr (p - of_int k * TICK_SIZE)
       \<and> compute_fill_price S LONG p True = Inr (p + of_int k * TICK_SIZE)
       \<and> (\<exists>st'. execute_pending S st ts p = Inr st'
             \<and> trades (ledger st') = trades (ledger st) @
                 [build_trade S (next_id (ledger st)) cd eb ts ep
                    (round_to_tick (if cd = LONG then p - of_int k * TICK_SIZE
                                    else p + of_int k * TICK_SIZE))])"
proof (intro conjI)
  show "compute_fill_price S SHORT p True = Inr (p - of_int k * TICK_SIZE)"
    using assms(1) by (simp add: compute_fill_price_def)
  show "compute_fill_price S LONG p True = Inr (p + of_int k * TICK_SIZE)"
    using assms(1) by (simp add: compute_fill_price_def)
  show "\<exists>st'. execute_pending S st ts p = Inr st'
             \<and> trades (ledger st') = trades (ledger st) @
                 [build_trade S (next_id (ledger st)) cd eb ts ep
                    (round_to_tick (if cd = LONG then p - of_int k * TICK_SIZE
                                    else p + of_int k * TICK_SIZE))]"
    using assms
    by (cases cd)
       (simp_all add: execute_pending_def close_leg_def open_leg_def roll_close_order_def
          mk_Direction_def compute_fill_price_def record_trade_def)
qed

theorem roll_close_uses_roll_slippage_witness:
  "ROLL_CLOSE_SLIPPAGE_TICKS settings_with_roll = Some 2
   \<and> SLIPPAGE_TICKS settings_with_roll = 1
   \<and> pending long_state_roll_pending = Some (roll_close_order LONG (Some 300))
   \<and> (\<exists>st'. execute_pending settings_with_roll long_state_roll_pending 600 (11005 / 10000) = Inr st'
          \<and> map exit_price (trades (ledger st')) = [11004 / 10000])"
proof -
  have h: "ROLL_CLOSE_SLIPPAGE_TICKS settings_with_roll = Some 2"
     "pending long_state_roll_pending = Some (roll_close_order LONG (Some 300))"
     "LONG \<noteq> FLAT"
     "st_entry_price long_state_roll_pending = Some (110105 / 100000)"
     "st_entry_bar long_state_roll_pending = Some 300"
    by (simp_all add: settings_with_roll_def settings_py_def long_state_roll_pending_def)
  from roll_close_uses_roll_slippage [OF h, of "11005 / 10000" 600]
  obtain st' where
    "execute_pending settings_with_roll long_state_roll_pending 600 (11005 / 10000) = Inr st'"
    "trades (ledger st') = trades (ledger long_state_roll_pending) @
       [build_trade settings_with_roll (next_id (ledger long_state_roll_pending)) LONG 300 600
          (110105 / 100000) (round_to_tick (11005 / 10000 - of_int 2 * TICK_SIZE))]"
    by auto
  then show ?thesis using h(1,2)
    by (auto simp: long_state_roll_pending_def new_ledger_def build_trade_def round_eval
          settings_with_roll_def settings_py_def)
qed

subsection \<open>No lookahead\<close>

lemma evaluate_bar_bar_inputs:
  assumes "bar_inputs b = bar_inputs b'"
  shows "evaluate_bar S signals i b st = evaluate_bar S signals i b' st"
proof -
  from assms have "col_ts b = col_ts b'" "contains_roll b = contains_roll b'"
    by (simp_all add: bar_inputs_def)
  then show ?thesis unfolding evaluate_bar_def is_roll_bar_def by (simp only:)
qed

lemma step_bar_inputs:
  assumes "bar_inputs b = bar_inputs b'"
  shows "step S signals i b st = step S signals i b' st"
proof -
  from assms have "col_ts b = col_ts b'" "col_open b = col_open b'"
    by (simp_all add: bar_inputs_def)
  then show ?thesis
    unfolding step_def by (simp add: evaluate_bar_bar_inputs [OF assms] split: sum.splits)
qed

lemma loop_bar_inputs:
  "map bar_inputs bars = map bar_inputs bars' \<Longrightarrow>
     loop S signals i bars st = loop S signals i bars' st"
proof (induction bars arbitrary: bars' i st)
  case Nil
  then show ?case by simp
next
  case (Cons b bars)
  then obtain b' rest where bars': "bars' = b' # rest" "bar_inputs b = bar_inputs b'"
    "map bar_inputs bars = map bar_inputs rest" by (cases bars') auto
  then show ?case using Cons.IH [OF bars'(3)] step_bar_inputs [OF bars'(2)]
    by (simp split: sum.splits)
qed

lemma force_close_bar_inputs:
  assumes "map bar_inputs bars = map bar_inputs bars'"
  shows "force_close_at_end S st bars = force_close_at_end S st bars'"
proof (cases "bars = []")
  case True
  with assms show ?thesis by simp
next
  case False
  with assms have ne: "bars' \<noteq> []" by auto
  have "bar_inputs (last bars) = last (map bar_inputs bars)"
    using False by (simp add: last_map)
  also have "\<dots> = bar_inputs (last bars')" using ne assms by (simp add: last_map)
  finally have "col_ts (last bars) = col_ts (last bars')" "col_open (last bars) = col_open (last bars')"
    by (simp_all add: bar_inputs_def)
  with False ne show ?thesis
    by (simp add: force_close_at_end_def Let_def split: sum.splits option.splits)
qed

text \<open>
  Claim C4: two bar sequences that agree, bar by bar, on timestamp, open price and roll
  flag give the same result of the run for the same signals, whatever their highs, lows
  and closes are: the same ledger and final state, or the same error.
\<close>

theorem no_lookahead:
  assumes "map bar_inputs bars = map bar_inputs bars'"
  shows "run_backtest S bars signals = run_backtest S bars' signals"
  using loop_bar_inputs [OF assms] force_close_bar_inputs [OF assms]
  by (simp add: run_backtest_def split: sum.splits)

theorem no_lookahead_witness:
  "map bar_inputs ex_bars = map bar_inputs ex_bars_alt
   \<and> map col_close ex_bars \<noteq> map col_close ex_bars_alt
   \<and> run_backtest settings_py ex_bars ex_signals = run_backtest settings_py ex_bars_alt ex_signals
   \<and> (\<exists>st. run_backtest settings_py ex_bars_alt ex_signals = Inr st \<and> length (trades (ledger st)) = 1)"
proof -
  have h: "map bar_inputs ex_bars = map bar_inputs ex_bars_alt"
    by (simp add: ex_bars_alt_def ex_bars_def bar_at_def bar_inputs_def)
  have d: "map col_close ex_bars \<noteq> map col_close ex_bars_alt"
    by (simp add: ex_bars_alt_def ex_bars_def bar_at_def)
  have r: "\<exists>st. run_backtest settings_py ex_bars ex_signals = Inr st \<and> length (trades (ledger st)) = 1"
    by (simp add: engine_eval)
  from no_lookahead [OF h, of settings_py ex_signals] h d r show ?thesis by simp
qed

subsection \<open>Opens and closes balance\<close>

lemma execute_pending_balance:
  assumes "state_inv st" and "pending st = Some p"
    and "execute_pending S st ts px = Inr st'"
  shows "length (trades (ledger st')) + open_positions st' =
           length (trades (ledger st)) + open_positions st + (if has_open_leg st then 1 else 0)"
proof -
  from assms(3,2) obtain st1 st2 where l: "close_leg S p st ts px = Inr st1"
    "open_leg S p st1 ts px = Inr st2" "st' = st2\<lparr>pending := None\<rparr>"
    by (auto simp: execute_pending_def split: sum.splits)
  from assms(1,2) have nf: "open_direction p \<noteq> Some FLAT" by (simp add: state_inv_def)
  have c: "length (trades (ledger st1)) = length (trades (ledger st)) + open_positions st
           \<and> open_positions st1 = 0"
  proof (cases "close_direction p")
    case None
    with assms(1,2) l(1) show ?thesis
      by (auto simp: close_leg_def state_inv_def open_positions_def)
  next
    case (Some cd)
    with assms(1,2) have "current_direction (position st) \<noteq> FLAT"
      unfolding state_inv_def by auto
    with Some l(1) show ?thesis
      by (auto simp: close_leg_def open_positions_def record_trade_def on_close_def
               split: sum.splits option.splits)
  qed
  have o: "length (trades (ledger st2)) + open_positions st2 =
             length (trades (ledger st1)) + open_positions st1 + (if has_open_leg st then 1 else 0)"
  proof (cases "open_direction p")
    case None
    with l(2) assms(2) show ?thesis by (simp add: open_leg_def has_open_leg_def)
  next
    case (Some od)
    with nf have "od \<noteq> FLAT" by simp
    with Some l(2) assms(2) c show ?thesis
      by (auto simp: open_leg_def has_open_leg_def open_positions_def on_open_def
               split: sum.splits)
  qed
  have "ledger st' = ledger st2" "open_positions st' = open_positions st2"
    using l(3) by (simp_all add: open_positions_def)
  with c o show ?thesis by simp
qed

lemma step_balance:
  assumes "state_inv st" and "step S signals i bar st = Inr st'"
  shows "length (trades (ledger st')) + open_positions st' =
           length (trades (ledger st)) + open_positions st + (if has_open_leg st then 1 else 0)"
proof (cases "pending st")
  case None
  with assms(2) have "evaluate_bar S signals i bar st = Inr st'" by (simp add: step_def)
  from evaluate_bar_ledger [OF this] evaluate_bar_position [OF this] None show ?thesis
    by (simp add: open_positions_def has_open_leg_def)
next
  case (Some p)
  with assms(2) obtain st1 where st1:
    "execute_pending S st (col_ts bar) (col_open bar) = Inr st1"
    "evaluate_bar S signals i bar st1 = Inr st'"
    by (auto simp: step_def split: sum.splits)
  from execute_pending_balance [OF assms(1) Some st1(1)]
    evaluate_bar_ledger [OF st1(2)] evaluate_bar_position [OF st1(2)]
  show ?thesis by (simp add: open_positions_def)
qed

lemma loop_balance:
  assumes "state_inv st" and "loop S signals i bars st = Inr st'"
  shows "length (trades (ledger st')) + open_positions st' =
           length (trades (ledger st)) + open_positions st + opens_filled S signals i bars st"
  using assms
proof (induction bars arbitrary: i st)
  case Nil
  then show ?case by simp
next
  case (Cons bar bars)
  from Cons.prems(2) obtain st1 where st1: "step S signals i bar st = Inr st1"
    "loop S signals (Suc i) bars st1 = Inr st'"
    by (auto split: sum.splits)
  from Cons.IH [OF step_inv [OF Cons.prems(1) st1(1)] st1(2)]
    step_balance [OF Cons.prems(1) st1(1)] st1(1)
  show ?case by simp
qed

subsection \<open>The forced close is a normal close\<close>

lemma force_close_as_signal_close:
  assumes "state_inv lp" and "current_direction (position lp) \<noteq> FLAT" and "bars \<noteq> []"
  shows "\<exists>st st'. force_close_at_end S lp bars = Inr st
           \<and> execute_pending S
                (lp\<lparr> pending := Some (signal_close_order (current_direction (position lp)) sb) \<rparr>)
                (col_ts (last bars)) (col_open (last bars)) = Inr st'
           \<and> ledger st = ledger st' \<and> position st = position st'
           \<and> length (trades (ledger st)) = Suc (length (trades (ledger lp)))"
proof -
  from assms(1,2) obtain ep eb where "st_entry_price lp = Some ep" "st_entry_bar lp = Some eb"
    unfolding state_inv_def by auto
  moreover obtain od where "mk_Direction (- dvalue (current_direction (position lp))) = Inr od"
      "od \<noteq> FLAT"
    using assms(2) by (cases "current_direction (position lp)") (simp_all add: mk_Direction_def)
  ultimately show ?thesis using assms(2,3)
    by (simp add: force_close_at_end_def is_flat_def Let_def compute_fill_price_standard
          execute_pending_def close_leg_def open_leg_def signal_close_order_def record_trade_def)
qed

lemma sorted_le_last: "sorted xs \<Longrightarrow> x \<in> set xs \<Longrightarrow> x \<le> last xs"
  by (induction xs) auto

text \<open>
  Claim C5: on a non-empty bar stream with increasing timestamps and one signal in
  \<open>{-1, 0, 1}\<close> per bar (and, if some bar is a roll bar, settings that define the two
  roll constants) the loop and the run return; the final direction is \<open>FLAT\<close>; the
  ledger holds one trade for every open leg that was executed; no trade exits after the
  last bar's timestamp; and a position still open after the loop is closed as a queued
  signal close executed at the last bar's open would close it: same ledger, same position.
\<close>

theorem run_backtest_ends_flat:
  assumes "bars \<noteq> []" and "length signals = length bars"
    and "\<forall>s\<in>set signals. s \<in> {- 1, 0, 1}"
    and "sorted (map col_ts bars)"
    and "(\<exists>b\<in>set bars. is_roll_bar b) \<longrightarrow> roll_configured S"
  shows "\<exists>lp st. loop S signals 0 bars new_state = Inr lp
           \<and> run_backtest S bars signals = Inr st
           \<and> current_direction (position st) = FLAT
           \<and> length (trades (ledger st)) = opens_filled S signals 0 bars new_state
           \<and> (\<forall>t\<in>set (trades (ledger st)). exit_bar t \<le> col_ts (last bars))
           \<and> (current_direction (position lp) = FLAT \<longrightarrow> st = lp)
           \<and> (current_direction (position lp) \<noteq> FLAT \<longrightarrow>
                (\<exists>st'. execute_pending S
                    (lp\<lparr> pending := Some (signal_close_order (current_direction (position lp)) None) \<rparr>)
                    (col_ts (last bars)) (col_open (last bars)) = Inr st'
                  \<and> ledger st = ledger st' \<and> position st = position st'))"
proof -
  from loop_total [OF new_state_inv new_state_roll_ready assms(5), of 0 signals] assms(2,3)
  obtain lp where lp: "loop S signals 0 bars new_state = Inr lp" by auto
  have inv: "state_inv lp" by (rule loop_inv [OF new_state_inv lp])
  from loop_balance [OF new_state_inv lp]
  have bal: "length (trades (ledger lp)) + open_positions lp =
               opens_filled S signals 0 bars new_state"
    by (simp add: new_state_def new_ledger_def new_position_manager_def open_positions_def)
  from force_close_inv [OF inv assms(1), of S]
  obtain st where st: "force_close_at_end S lp bars = Inr st"
    "current_direction (position st) = FLAT" by blast
  with lp have run: "run_backtest S bars signals = Inr st" by (simp add: run_backtest_def)
  have flat: "st = lp" if "current_direction (position lp) = FLAT"
    using that st(1) by (simp add: force_close_at_end_def is_flat_def)
  have closed: "\<exists>st'. execute_pending S
                    (lp\<lparr> pending := Some (signal_close_order (current_direction (position lp)) None) \<rparr>)
                    (col_ts (last bars)) (col_open (last bars)) = Inr st'
                  \<and> ledger st = ledger st' \<and> position st = position st'"
     and one_more: "length (trades (ledger st)) = Suc (length (trades (ledger lp)))"
    if "current_direction (position lp) \<noteq> FLAT"
    using force_close_as_signal_close [OF inv that assms(1), of S None] st(1) by auto
  have count: "length (trades (ledger st)) = opens_filled S signals 0 bars new_state"
  proof (cases "current_direction (position lp) = FLAT")
    case True
    with flat bal show ?thesis by (simp add: open_positions_def)
  next
    case False
    with one_more bal show ?thesis by (simp add: open_positions_def)
  qed
  have "exit_bar (build_trade S tid d eb xb ep xp) \<le> col_ts (last bars)"
    if "xb \<in> col_ts ` set bars" for tid d eb xb ep xp
  proof -
    from that have "xb \<in> set (map col_ts bars)" by simp
    from sorted_le_last [OF assms(4) this] assms(1) show ?thesis
      by (simp add: build_trade_def Let_def last_map)
  qed
  then have exits: "\<forall>t\<in>set (trades (ledger st)). exit_bar t \<le> col_ts (last bars)"
    using run by (rule run_backtest_trades_pred)
  from lp run st(2) count exits flat closed show ?thesis by blast
qed

subsection \<open>Runs of the two scenarios\<close>

theorem run_backtest_ends_flat_witness:
  "ex_bars \<noteq> [] \<and> length ex_signals = length ex_bars
   \<and> set ex_signals \<subseteq> {- 1, 0, 1}
   \<and> sorted (map col_ts ex_bars)
   \<and> (\<exists>lp st. loop settings_py ex_signals 0 ex_bars new_state = Inr lp
         \<and> current_direction (position lp) = LONG
         \<and> run_backtest settings_py ex_bars ex_signals = Inr st
         \<and> current_direction (position st) = FLAT
         \<and> length (trades (ledger st)) = 1
         \<and> (\<forall>t\<in>set (trades (ledger st)). exit_bar t \<le> 900))
   \<and> roll_bars \<noteq> [] \<and> length roll_signals = length roll_bars
   \<and> set roll_signals \<subseteq> {- 1, 0, 1}
   \<and> sorted (map col_ts roll_bars)
   \<and> is_roll_bar (roll_bars ! 1) \<and> roll_configured settings_with_roll
   \<and> (\<exists>st. run_backtest settings_with_roll roll_bars roll_signals = Inr st
         \<and> current_direction (position st) = FLAT
         \<and> (\<forall>t\<in>set (trades (ledger st)). exit_bar t \<le> 600))"
proof -
  have a: "ex_bars \<noteq> []" "length ex_signals = length ex_bars"
      "\<forall>s\<in>set ex_signals. s \<in> {- 1, 0, 1}" "sorted (map col_ts ex_bars)"
      "(\<exists>b\<in>set ex_bars. is_roll_bar b) \<longrightarrow> roll_configured settings_py"
    by (simp_all add: ex_bars_def ex_signals_def bar_at_def is_roll_bar_def)
  have la: "col_ts (last ex_bars) = 900" by (simp add: ex_bars_def bar_at_def)
  have lpa: "\<exists>lp. loop settings_py ex_signals 0 ex_bars new_state = Inr lp
               \<and> current_direction (position lp) = LONG"
    by (simp add: engine_eval)
  have na: "\<exists>st. run_backtest settings_py ex_bars ex_signals = Inr st
               \<and> length (trades (ledger st)) = 1"
    by (simp add: engine_eval)
  have b: "roll_bars \<noteq> []" "length roll_signals = length roll_bars"
      "\<forall>s\<in>set roll_signals. s \<in> {- 1, 0, 1}" "sorted (map col_ts roll_bars)"
    by (simp_all add: roll_bars_def roll_signals_def bar_at_def)
  have rb: "is_roll_bar (roll_bars ! 1)"
    by (simp add: roll_bars_def bar_at_def is_roll_bar_def)
  have rc: "roll_configured settings_with_roll"
    by (simp add: roll_configured_def settings_with_roll_def)
  then have b5: "(\<exists>b\<in>set roll_bars. is_roll_bar b) \<longrightarrow> roll_configured settings_with_roll"
    by simp
  have lb: "col_ts (last roll_bars) = 600" by (simp add: roll_bars_def bar_at_def)
  from run_backtest_ends_flat [OF a] la lpa na
  have A: "\<exists>lp st. loop settings_py ex_signals 0 ex_bars new_state = Inr lp
         \<and> current_direction (position lp) = LONG
         \<and> run_backtest settings_py ex_bars ex_signals = Inr st
         \<and> current_direction (position st) = FLAT
         \<and> length (trades (ledger st)) = 1
         \<and> (\<forall>t\<in>set (trades (ledger st)). exit_bar t \<le> 900)"
    by auto
  from run_backtest_ends_flat [OF b b5] lb
  have B: "\<exists>st. run_backtest settings_with_roll roll_bars roll_signals = Inr st
         \<and> current_direction (position st) = FLAT
         \<and> (\<forall>t\<in>set (trades (ledger st)). exit_bar t \<le> 600)"
    by auto
  have sa: "set ex_signals \<subseteq> {- 1, 0, 1}" using a(3) by blast
  have sb: "set roll_signals \<subseteq> {- 1, 0, 1}" using b(3) by blast
  from a(1,2) sa a(4) A b(1,2) sb b(4) rb rc B show ?thesis by (intro conjI)
qed

subsection \<open>Entries on roll bars\<close>

text \<open>
  Claim C1 fails on the code: step 1 of the loop executes the pending order before the
  roll check, open leg included. With a long signal on the bar before a roll bar, the
  entry is filled at the roll bar's open, and the completed run (settings that define the
  roll constants) records a trade whose entry bar is the roll bar. With the settings
  module as it stands the entry is filled on the roll bar all the same, before the
  iteration reaches the lookup of the undefined freeze constant.
\<close>

theorem pending_entry_filled_on_roll_bar:
  "is_roll_bar (roll_bars ! 1) \<and> col_ts (roll_bars ! 1) = 300
   \<and> (\<exists>st t. run_backtest settings_with_roll roll_bars roll_signals = Inr st
          \<and> trades (ledger st) = [t] \<and> direction t = LONG
          \<and> entry_bar t = 300 \<and> exit_bar t = 600)
   \<and> (\<exists>st0 st1. step settings_py roll_signals 0 (roll_bars ! 0) new_state = Inr st0
          \<and> execute_pending settings_py st0 (col_ts (roll_bars ! 1)) (col_open (roll_bars ! 1))
               = Inr st1
          \<and> current_direction (position st1) = LONG \<and> st_entry_bar st1 = Some 300)"
  by (simp add: engine_eval)

subsection \<open>The entry cache after the forced close\<close>

text \<open>
  Claim C6 fails at the end of a run: the forced close sets the direction to \<open>FLAT\<close>
  and leaves the cached entry price and entry bar in the state, unlike the close leg of
  \<^verbatim>\<open>_execute_pending\<close>, which clears both. In the scenario of the specification the
  state that the run returns is flat with entry price 1.10055 and entry bar 600 present.
\<close>

theorem forced_close_keeps_entry_cache:
  "\<exists>st. run_backtest settings_py ex_bars ex_signals = Inr st
      \<and> current_direction (position st) = FLAT
      \<and> st_entry_price st = Some (110055 / 100000)
      \<and> st_entry_bar st = Some 600"
  by (simp add: engine_eval)

subsection \<open>The bar index of the position manager\<close>

text \<open>
  Claim C9 fails on the code: \<^verbatim>\<open>_execute_pending\<close> calls \<^verbatim>\<open>on_open\<close> with
  \<^verbatim>\<open>bar_index=-1\<close>. After the third bar of the scenario the position is LONG, opened
  by the fill on the bar of index 2, and \<open>entry_bar_index\<close> is \<open>-1\<close>.
\<close>

theorem entry_bar_index_not_recorded:
  "loop settings_py ex_signals 0 (take 3 ex_bars) new_state = Inr ex_filled_state
   \<and> current_direction (position ex_filled_state) = LONG
   \<and> st_entry_bar ex_filled_state = Some (col_ts (ex_bars ! 2))
   \<and> entry_bar_index (position ex_filled_state) = - 1"
  by (simp add: engine_eval ex_filled_state_def)

subsection \<open>Queued entries and bars without a signal\<close>

text \<open>
  Claim C8 as stated fails: in the scenario of the specification the long entry queued on
  the second bar is filled on the third bar, whose signal is 0. Step 1 has executed the
  order before signal evaluation reaches the branch that clears the pending order.
\<close>

theorem queued_entry_filled_on_no_signal_bar:
  "loop settings_py ex_signals 0 (take 2 ex_bars) new_state = Inr ex_queued_state
   \<and> signal_at ex_signals 2 = Inr 0
   \<and> step settings_py ex_signals 2 (ex_bars ! 2) ex_queued_state = Inr ex_filled_state
   \<and> current_direction (position ex_filled_state) = LONG
   \<and> st_entry_bar ex_filled_state = Some (col_ts (ex_bars ! 2))"
  by (simp add: engine_eval ex_filled_state_def ex_queued_state_def)

text \<open>
  Claim C8, as the code has it: on a bar that is no roll bar, outside a freeze, whose
  signal is 0 or equals the direction of the queued entry, the iteration returns exactly
  the state that executing the queued entry order at this bar's open gives: the position
  is open in the order's direction with this bar as entry bar and the slipped, rounded
  open as entry price, and no order is pending. The order is filled, not cancelled.
\<close>

theorem no_action_bar_fills_queued_entry:
  assumes "pending st = Some p" and "close_direction p = None"
    and "open_direction p = Some d" and "d \<noteq> FLAT"
    and "\<not> is_roll_bar bar" and "roll_freeze_remaining st \<le> 0"
    and "i < length signals" and "signals ! i = 0 \<or> signals ! i = dvalue d"
  shows "\<exists>st'. step S signals i bar st = Inr st'
           \<and> execute_pending S st (col_ts bar) (col_open bar) = Inr st'
           \<and> pending st' = None
           \<and> current_direction (position st') = d
           \<and> st_entry_bar st' = Some (col_ts bar)
           \<and> st_entry_price st' = Some (round_to_tick
                (if d = LONG then col_open bar + of_int (SLIPPAGE_TICKS S) * TICK_SIZE
                 else col_open bar - of_int (SLIPPAGE_TICKS S) * TICK_SIZE))"
proof -
  let ?fill = "if d = LONG then col_open bar + of_int (SLIPPAGE_TICKS S) * TICK_SIZE
               else col_open bar - of_int (SLIPPAGE_TICKS S) * TICK_SIZE"
  let ?st' = "st\<lparr> position := on_open (position st) d (- 1),
                  st_entry_price := Some (round_to_tick ?fill),
                  st_entry_bar := Some (col_ts bar), pending := None \<rparr>"
  have ex: "execute_pending S st (col_ts bar) (col_open bar) = Inr ?st'"
    using assms(1-4)
    by (simp add: execute_pending_def close_leg_def open_leg_def compute_fill_price_standard)
  have dir: "current_direction (position ?st') = d" by (simp add: on_open_def)
  have sig: "evaluate_signal (position ?st') (signals ! i) (int i) = Inr no_action"
    using assms(4,8) dir
    by (cases d) (auto simp: evaluate_signal_def mk_Direction_def)
  have ev: "evaluate_bar S signals i bar ?st' = Inr ?st'"
    using assms(5-7) sig
    by (simp add: evaluate_bar_def signal_at_def no_action_def)
  from ex ev assms(1) have "step S signals i bar st = Inr ?st'" by (simp add: step_def)
  with ex dir show ?thesis by simp
qed

theorem no_action_bar_fills_queued_entry_witness:
  "pending ex_queued_state \<noteq> None
   \<and> \<not> is_roll_bar (ex_bars ! 2) \<and> ex_signals ! 2 = 0
   \<and> (\<exists>st'. step settings_py ex_signals 2 (ex_bars ! 2) ex_queued_state = Inr st'
         \<and> pending st' = None \<and> current_direction (position st') = LONG
         \<and> st_entry_bar st' = Some 600
         \<and> st_entry_price st' = Some (110055 / 100000))"
proof -
  have h: "pending ex_queued_state = Some \<lparr> close_direction = None, open_direction = Some LONG,
                                   signal_bar = Some 300, exit_reason = ''signal'' \<rparr>"
    "close_direction \<lparr> close_direction = None, open_direction = Some LONG,
                                   signal_bar = Some 300, exit_reason = ''signal'' \<rparr> = None"
    "open_direction \<lparr> close_direction = None, open_direction = Some LONG,
                                   signal_bar = Some 300, exit_reason = ''signal'' \<rparr> = Some LONG"
    "LONG \<noteq> FLAT" "\<not> is_roll_bar (ex_bars ! 2)" "roll_freeze_remaining ex_queued_state \<le> 0"
    "2 < length ex_signals" "ex_signals ! 2 = 0 \<or> ex_signals ! 2 = dvalue LONG"
    by (simp_all add: ex_queued_state_def new_state_def ex_bars_def bar_at_def is_roll_bar_def
          ex_signals_def)
  have z: "ex_signals ! 2 = 0" by (simp add: ex_signals_def)
  have v: "col_ts (ex_bars ! 2) = 600"
     "round_to_tick (col_open (ex_bars ! 2) + of_int (SLIPPAGE_TICKS settings_py) * TICK_SIZE)
        = 110055 / 100000"
    by (simp_all add: ex_bars_def bar_at_def settings_py_def round_eval)
  from no_action_bar_fills_queued_entry [OF h, of settings_py] h(1,5) z v
  show ?thesis by auto
qed

subsection \<open>At most one open position during the loop\<close>

text \<open>
  After every prefix of the bars the state is consistent, at most one position is open,
  and the executed open legs are the recorded trades plus the open position, if any.
\<close>

lemma loop_prefix_one_position:
  assumes "loop S signals 0 (take n bars) new_state = Inr st"
  shows "state_inv st \<and> open_positions st \<le> 1
         \<and> length (trades (ledger st)) + open_positions st =
             opens_filled S signals 0 (take n bars) new_state"
  using loop_inv [OF new_state_inv assms] loop_balance [OF new_state_inv assms]
  by (simp add: open_positions_def new_state_def new_ledger_def new_position_manager_def)

lemma loop_entry_bar_index:
  assumes "loop S signals 0 bars new_state = Inr st"
  shows "entry_bar_index (position st) = - 1"
  using loop_inv [OF new_state_inv assms] by (simp add: state_inv_def)

lemma loop_pending_cleared_by_step_1:
  assumes "state_inv st" and "pending st = Some p"
    and "step S signals i bar st = Inr st'"
  shows "\<exists>st1. execute_pending S st (col_ts bar) (col_open bar) = Inr st1
           \<and> pending st1 = None \<and> evaluate_bar S signals i bar st1 = Inr st'"
  using step_cases [OF assms(1), of S signals i bar] assms(2,3) by auto

subsection \<open>The settings module as it stands\<close>

text \<open>
  With the settings module of the repository, which defines neither roll constant, a
  roll close cannot be filled and an iteration on a roll bar raises.
\<close>

lemma settings_py_roll_close_raises:
  "d \<noteq> FLAT \<Longrightarrow>
     compute_fill_price settings_py d p True = Inl (AttributeError ''ROLL_CLOSE_SLIPPAGE_TICKS'')"
  by (simp add: compute_fill_price_def settings_py_def)

lemma settings_py_roll_bar_raises:
  assumes "is_roll_bar bar" and "pending st = None"
  shows "step settings_py signals i bar st = Inl (AttributeError ''ROLL_FREEZE_BARS_POST'')"
  using assms by (simp add: step_def evaluate_bar_def settings_py_def Let_def)

subsection \<open>Tick rounding in binary64 arithmetic\<close>

lemma ulp_at_pos: "0 < ulp_at e"
  by (simp add: ulp_at_def)

lemma f64_nearest_error: "\<bar>f64_nearest x - x\<bar> \<le> ulp_at (binade x) / 2"
proof (cases "x = 0")
  case True
  then show ?thesis using ulp_at_pos [of "binade x"] by (simp add: f64_nearest_def)
next
  case False
  let ?u = "ulp_at (binade x)"
  have u: "0 < ?u" by (rule ulp_at_pos)
  have "f64_nearest x - x = (of_int (py_round (x / ?u)) - x / ?u) * ?u"
    using False u by (simp add: f64_nearest_def field_simps)
  then have "\<bar>f64_nearest x - x\<bar> = \<bar>of_int (py_round (x / ?u)) - x / ?u\<bar> * ?u"
    using u by (simp add: abs_mult)
  also have "\<dots> \<le> (1 / 2) * ?u"
    using py_round_error [of "x / ?u"] u by (intro mult_right_mono) simp_all
  finally show ?thesis by simp
qed

lemma binade_eq:
  assumes "2 powr of_int e \<le> \<bar>x\<bar>" and "\<bar>x\<bar> < 2 powr (of_int e + 1)" and "- 1022 \<le> e"
  shows "binade x = e"
proof -
  have "0 < (2::real) powr of_int e" by simp
  with assms(1) have "0 < \<bar>x\<bar>" by linarith
  then have "\<lfloor>log 2 \<bar>x\<bar>\<rfloor> = e"
    using assms(1,2) by (subst floor_log_eq_powr_iff) (simp_all add: add.commute)
  with assms(3) show ?thesis by (simp add: binade_def)
qed

lemma f64_nearest_eval:
  assumes "2 powr of_int e \<le> \<bar>x\<bar>" and "\<bar>x\<bar> < 2 powr (of_int e + 1)" and "- 1022 \<le> e"
  shows "f64_nearest x = of_int (py_round (x / ulp_at e)) * ulp_at e"
proof -
  have "0 < (2::real) powr of_int e" by simp
  with assms(1) have "x \<noteq> 0" by auto
  with binade_eq [OF assms] show ?thesis by (simp add: f64_nearest_def)
qed

lemma TICK_SIZE_f64_value: "TICK_SIZE_f64 = 7378697629483821 / 2 ^ 67"
  unfolding TICK_SIZE_f64_def
  by (subst f64_nearest_eval [where e = "- 15"])
     (simp_all add: TICK_SIZE_def ulp_at_def powr_neg_numeral py_round_def Let_def)

lemma py_round_unique:
  assumes "\<bar>y - of_int n\<bar> < 1 / 2"
  shows "py_round y = n"
proof -
  have "\<bar>of_int (py_round y) - of_int n\<bar> < (1::real)"
    using py_round_error [of y] assms by linarith
  then have "\<bar>py_round y - n\<bar> < 1"
    by (metis of_int_1 of_int_abs of_int_diff of_int_less_iff)
  then show ?thesis by linarith
qed

lemma TICK_SIZE_f64_pos: "0 < TICK_SIZE_f64"
  by (simp add: TICK_SIZE_f64_value)

text \<open>In the normal range the spacing is at most \<open>2\<^sup>-\<^sup>5\<^sup>2\<close> times the magnitude.\<close>

lemma ulp_at_binade_le:
  assumes "2 powr (- 1022) \<le> \<bar>x\<bar>"
  shows "ulp_at (binade x) \<le> \<bar>x\<bar> / 2 ^ 52"
proof -
  have "0 < (2::real) powr (- 1022)" by simp
  with assms have pos: "0 < \<bar>x\<bar>" by linarith
  have "- 1022 \<le> log 2 \<bar>x\<bar>"
    using assms pos by (simp add: le_log_iff)
  then have "- 1022 \<le> \<lfloor>log 2 \<bar>x\<bar>\<rfloor>" by linarith
  then have b: "binade x = \<lfloor>log 2 \<bar>x\<bar>\<rfloor>" by (simp add: binade_def)
  have "of_int \<lfloor>log 2 \<bar>x\<bar>\<rfloor> \<le> log 2 \<bar>x\<bar>" by simp
  then have "2 powr of_int \<lfloor>log 2 \<bar>x\<bar>\<rfloor> \<le> 2 powr log 2 \<bar>x\<bar>"
    by (simp only: powr_le_cancel_iff [of 2] one_less_numeral_iff semiring_norm)
  also have "\<dots> = \<bar>x\<bar>" using pos by simp
  finally have "2 powr of_int (binade x) \<le> \<bar>x\<bar>" using b by simp
  moreover have "ulp_at (binade x) = 2 powr of_int (binade x) / 2 ^ 52"
    by (simp add: ulp_at_def powr_diff)
  ultimately show ?thesis by (simp add: divide_right_mono)
qed

lemma f64_nearest_rel_error:
  assumes "2 powr (- 1022) \<le> \<bar>x\<bar>"
  shows "\<bar>f64_nearest x - x\<bar> \<le> \<bar>x\<bar> / 2 ^ 53"
  using f64_nearest_error [of x] ulp_at_binade_le [OF assms] by simp

lemma pow_m1022_le: "2 powr (- 1022) \<le> (1 / 2 ^ 20 :: real)"
proof -
  have "(2::real) powr (- 1022) \<le> 2 powr (- 20)" by (rule powr_mono) simp_all
  then show ?thesis by (simp add: powr_neg_numeral)
qed

text \<open>A quotient below a quarter is rounded to a float below a half.\<close>

lemma f64_nearest_small:
  assumes "\<bar>x\<bar> < 1 / 4"
  shows "\<bar>f64_nearest x\<bar> < 1 / 2"
proof (cases "x = 0")
  case True
  then show ?thesis by (simp add: f64_nearest_def)
next
  case False
  then have pos: "0 < \<bar>x\<bar>" by simp
  have "log 2 \<bar>x\<bar> < - 2"
    using assms pos by (simp add: log_less_iff powr_neg_numeral)
  then have "\<lfloor>log 2 \<bar>x\<bar>\<rfloor> \<le> - 2" by linarith
  then have "binade x \<le> - 2" by (simp add: binade_def)
  then have "of_int (binade x) - 52 \<le> (- 2 :: real)" by simp
  then have "ulp_at (binade x) \<le> 2 powr (- 2)"
    unfolding ulp_at_def by (intro powr_mono) simp_all
  then have "ulp_at (binade x) \<le> 1 / 4" by (simp add: powr_neg_numeral)
  with f64_nearest_error [of x] assms show ?thesis by linarith
qed

text \<open>Integers below \<open>2\<^sup>5\<^sup>3\<close> are floats.\<close>

lemma f64_nearest_of_int:
  assumes "\<bar>k\<bar> < 2 ^ 53"
  shows "f64_nearest (of_int k) = of_int k"
proof (cases "k = 0")
  case True
  then show ?thesis by (simp add: f64_nearest_def)
next
  case False
  let ?x = "of_int k :: real"
  have one: "1 \<le> \<bar>?x\<bar>" using False by (metis of_int_abs of_int_1_le_iff zero_less_abs_iff int_one_le_iff_zero_less)
  have lt: "\<bar>?x\<bar> < 2 ^ 53"
    using assms by (metis of_int_abs of_int_less_numeral_power_cancel_iff)
  have "0 \<le> log 2 \<bar>?x\<bar>" using one by simp
  then have e0: "0 \<le> \<lfloor>log 2 \<bar>?x\<bar>\<rfloor>" by simp
  have "log 2 \<bar>?x\<bar> < 53"
    using lt one by (simp add: log_less_iff)
  then have e53: "\<lfloor>log 2 \<bar>?x\<bar>\<rfloor> \<le> 52" by linarith
  from e0 have b: "binade ?x = \<lfloor>log 2 \<bar>?x\<bar>\<rfloor>" by (simp add: binade_def)
  define n where "n = nat (52 - binade ?x)"
  have n: "of_int (binade ?x) - 52 = - real n" using e53 b by (simp add: n_def)
  have u: "ulp_at (binade ?x) = 1 / 2 ^ n"
    by (simp add: ulp_at_def n powr_minus powr_realpow inverse_eq_divide)
  have "?x / ulp_at (binade ?x) = of_int (k * 2 ^ n)" by (simp add: u)
  then have "py_round (?x / ulp_at (binade ?x)) = k * 2 ^ n"
    using py_round_of_int by presburger
  then show ?thesis using False by (simp add: f64_nearest_def u)
qed

lemma f64_max_ge: "2 ^ 61 \<le> f64_max"
proof -
  have "(2::real) ^ 9 \<le> 2 ^ 971" by (rule power_increasing) simp_all
  moreover have "(2::real) ^ 52 \<le> 2 ^ 53 - 1" by simp
  ultimately have "(2::real) ^ 52 * 2 ^ 9 \<le> (2 ^ 53 - 1) * 2 ^ 971"
    by (intro mult_mono) simp_all
  then show ?thesis by (simp add: f64_max_def)
qed

lemma to_f64_finite:
  assumes "\<bar>f64_nearest x\<bar> \<le> 2 ^ 61"
  shows "to_f64 x = Finite (f64_nearest x)"
  using assms f64_max_ge by (simp add: to_f64_def Let_def abs_le_iff)

lemma TICK_SIZE_f64_normal: "2 powr (- 1022) \<le> TICK_SIZE_f64"
  using pow_m1022_le by (simp add: TICK_SIZE_f64_value)

text \<open>
  Up to three thousand million ticks, the float product \<open>k * tick\<close> rounds, at ten
  decimals, to the decimal \<open>k \<times> 0.00005\<close>.
\<close>

lemma tick_product_decimal:
  assumes "\<bar>k\<bar> \<le> 3 * 10 ^ 9"
  shows "py_round (f64_nearest (of_int k * TICK_SIZE_f64) * 10 ^ 10) = k * 500000"
proof (cases "k = 0")
  case True
  then show ?thesis by (simp add: f64_nearest_def py_round_def)
next
  case False
  let ?y = "of_int k * TICK_SIZE_f64"
  let ?a = "\<bar>of_int k :: real\<bar>"
  have a1: "1 \<le> ?a"
    using False by (metis of_int_abs of_int_1_le_iff zero_less_abs_iff int_one_le_iff_zero_less)
  have a2: "?a \<le> 3 * 10 ^ 9"
  proof -
    have "(of_int \<bar>k\<bar> :: real) \<le> of_int (3 * 10 ^ 9)" using assms by (simp only: of_int_le_iff)
    then show ?thesis by simp
  qed
  have ya: "\<bar>?y\<bar> = ?a * TICK_SIZE_f64"
    using TICK_SIZE_f64_pos by (simp add: abs_mult)
  have "TICK_SIZE_f64 \<le> \<bar>?y\<bar>"
    unfolding ya using a1 TICK_SIZE_f64_pos by (simp add: mult_le_cancel_right1)
  with TICK_SIZE_f64_normal have "2 powr (- 1022) \<le> \<bar>?y\<bar>" by linarith
  from f64_nearest_rel_error [OF this]
  have e1: "\<bar>f64_nearest ?y - ?y\<bar> \<le> ?a * (TICK_SIZE_f64 / 2 ^ 53)"
    by (simp add: ya)
  have "?y - of_int k * TICK_SIZE = of_int k * (TICK_SIZE_f64 - TICK_SIZE)"
    by (simp add: algebra_simps)
  then have e2: "\<bar>?y - of_int k * TICK_SIZE\<bar> = ?a * \<bar>TICK_SIZE_f64 - TICK_SIZE\<bar>"
    by (simp add: abs_mult)
  have "\<bar>f64_nearest ?y - of_int k * TICK_SIZE\<bar>
          \<le> \<bar>f64_nearest ?y - ?y\<bar> + \<bar>?y - of_int k * TICK_SIZE\<bar>"
    by arith
  also have "\<dots> \<le> ?a * (TICK_SIZE_f64 / 2 ^ 53) + ?a * \<bar>TICK_SIZE_f64 - TICK_SIZE\<bar>"
    using e1 e2 by linarith
  also have "\<dots> = ?a * (TICK_SIZE_f64 / 2 ^ 53 + \<bar>TICK_SIZE_f64 - TICK_SIZE\<bar>)"
    by (simp only: distrib_left)
  also have "\<dots> \<le> 3 * 10 ^ 9 * (TICK_SIZE_f64 / 2 ^ 53 + \<bar>TICK_SIZE_f64 - TICK_SIZE\<bar>)"
    using a2 TICK_SIZE_f64_pos by (intro mult_right_mono) simp_all
  also have "\<dots> < 1 / (2 * 10 ^ 10)"
    by (simp add: TICK_SIZE_f64_value TICK_SIZE_def)
  finally have "\<bar>f64_nearest ?y - of_int k * TICK_SIZE\<bar> * 10 ^ 10 < 1 / 2"
    by (simp add: field_simps)
  moreover have "(f64_nearest ?y - of_int k * TICK_SIZE) * 10 ^ 10
                   = f64_nearest ?y * 10 ^ 10 - of_int (k * 500000)"
    by (simp add: TICK_SIZE_def algebra_simps)
  moreover have "\<bar>(f64_nearest ?y - of_int k * TICK_SIZE) * 10 ^ 10\<bar>
                   = \<bar>f64_nearest ?y - of_int k * TICK_SIZE\<bar> * 10 ^ 10"
    by (subst abs_mult) simp
  ultimately have "\<bar>f64_nearest ?y * 10 ^ 10 - of_int (k * 500000)\<bar> < 1 / 2"
    by (simp only:)
  then show ?thesis by (rule py_round_unique)
qed

lemma quarter_normal: "2 powr (- 1022) \<le> (1 / 4 :: real)"
  using pow_m1022_le by (rule order_trans) simp

lemma f64_nearest_bound:
  assumes "\<bar>y\<bar> \<le> 2 ^ 60"
  shows "\<bar>f64_nearest y\<bar> \<le> 2 ^ 61"
proof (cases "\<bar>y\<bar> < 1 / 4")
  case True
  from f64_nearest_small [OF this] show ?thesis by simp
next
  case False
  with quarter_normal have "2 powr (- 1022) \<le> \<bar>y\<bar>" by linarith
  from f64_nearest_rel_error [OF this] have "\<bar>f64_nearest y - y\<bar> \<le> \<bar>y\<bar>"
    by (rule order_trans) (simp add: field_simps)
  with assms show ?thesis by simp
qed

lemma to_f64_finite_bound: "\<bar>y\<bar> \<le> 2 ^ 60 \<Longrightarrow> to_f64 y = Finite (f64_nearest y)"
  by (rule to_f64_finite) (rule f64_nearest_bound)

lemma round_to_tick_f64_finite:
  assumes "\<bar>p\<bar> \<le> 100000"
  defines "q \<equiv> f64_nearest (p / TICK_SIZE_f64)"
  shows "f64_div (Finite p) TICK_SIZE_f64 = Finite q"
    and "round_to_tick_f64 (Finite p) = Inr (Finite (f64_nearest (of_int (py_round q) * TICK_SIZE)))"
    and "\<bar>of_int (py_round q) * TICK_SIZE - p\<bar> \<le> TICK_SIZE / 2 + \<bar>p\<bar> / 2 ^ 50"
proof -
  let ?T = TICK_SIZE_f64
  let ?x = "p / ?T"
  let ?k = "py_round q"
  have T: "0 < ?T" by (rule TICK_SIZE_f64_pos)
  have xa: "\<bar>?x\<bar> = \<bar>p\<bar> / ?T" using T by simp
  have "\<bar>p\<bar> / ?T \<le> 100000 / ?T" using assms(1) T by (simp add: divide_right_mono)
  also have "\<dots> \<le> 2100000000" by (simp add: TICK_SIZE_f64_value)
  finally have xb: "\<bar>?x\<bar> \<le> 2100000000" by (simp only: xa)
  have near: "\<bar>q - ?x\<bar> \<le> \<bar>?x\<bar> / 2 ^ 53" if "1 / 4 \<le> \<bar>?x\<bar>"
  proof -
    from that quarter_normal have "2 powr (- 1022) \<le> \<bar>?x\<bar>" by linarith
    from f64_nearest_rel_error [OF this] show ?thesis by (simp only: q_def)
  qed
  have qb: "\<bar>q\<bar> \<le> 2100000000 + 1"
  proof (cases "\<bar>?x\<bar> < 1 / 4")
    case True
    from f64_nearest_small [OF this] show ?thesis by (simp add: q_def)
  next
    case False
    then have "\<bar>q - ?x\<bar> \<le> \<bar>?x\<bar> / 2 ^ 53" by (intro near) simp
    with xb show ?thesis by simp
  qed
  have kq: "\<bar>of_int ?k - q\<bar> \<le> 1 / 2" by (rule py_round_error)
  with qb have kr: "\<bar>of_int ?k :: real\<bar> \<le> 3000000000" by linarith
  then have "(of_int \<bar>?k\<bar> :: real) \<le> of_int 3000000000" by simp
  then have "\<bar>?k\<bar> \<le> 3000000000" by (simp only: of_int_le_iff)
  then have kb: "\<bar>?k\<bar> \<le> 3 * 10 ^ 9" by simp
  have div: "to_f64 ?x = Finite q"
    unfolding q_def using xb by (intro to_f64_finite_bound) simp
  then show "f64_div (Finite p) ?T = Finite q" by (simp add: f64_div_def)
  have kf: "to_f64 (of_int ?k) = Finite (of_int ?k)"
  proof -
    have "\<bar>?k\<bar> < 2 ^ 53" using kb by simp
    then have "f64_nearest (of_int ?k) = of_int ?k" by (rule f64_nearest_of_int)
    moreover have "\<bar>of_int ?k :: real\<bar> \<le> 2 ^ 60" using kr by simp
    ultimately show ?thesis using to_f64_finite_bound [of "of_int ?k"] by simp
  qed
  have "\<bar>of_int ?k * ?T\<bar> = \<bar>of_int ?k\<bar> * ?T" using T by (simp add: abs_mult)
  also have "\<dots> \<le> 3000000000 * ?T" using kr T by (intro mult_right_mono) simp_all
  also have "\<dots> \<le> 2 ^ 60" by (simp add: TICK_SIZE_f64_value)
  finally have mul: "to_f64 (of_int ?k * ?T) = Finite (f64_nearest (of_int ?k * ?T))"
    by (rule to_f64_finite_bound)
  have d0: "py_round (f64_nearest (of_int ?k * ?T) * 10 ^ 10) = ?k * 500000"
    by (rule tick_product_decimal [OF kb])
  have dec: "of_int (py_round (f64_nearest (of_int ?k * ?T) * 10 ^ 10)) / 10 ^ 10
               = (of_int ?k * TICK_SIZE :: real)"
    unfolding d0 by (simp add: TICK_SIZE_def)
  have "\<bar>of_int ?k * TICK_SIZE\<bar> = \<bar>of_int ?k\<bar> * TICK_SIZE"
    by (simp add: abs_mult TICK_SIZE_def)
  also have "\<dots> \<le> 3000000000 * TICK_SIZE"
    using kr by (intro mult_right_mono) (simp_all add: TICK_SIZE_def)
  also have "\<dots> \<le> 2 ^ 60" by (simp add: TICK_SIZE_def)
  finally have fin: "to_f64 (of_int ?k * TICK_SIZE) = Finite (f64_nearest (of_int ?k * TICK_SIZE))"
    by (rule to_f64_finite_bound)
  show "round_to_tick_f64 (Finite p) = Inr (Finite (f64_nearest (of_int ?k * TICK_SIZE)))"
    using div kf mul
    by (simp only: round_to_tick_f64_def f64_div_def py_round_f64_def int_times_f64_def
          py_round_ndigits_f64_def Let_def dec fin pyfloat.case sum.case)
  show "\<bar>of_int ?k * TICK_SIZE - p\<bar> \<le> TICK_SIZE / 2 + \<bar>p\<bar> / 2 ^ 50"
  proof (cases "\<bar>?x\<bar> < 1 / 4")
    case True
    from f64_nearest_small [OF this] have "\<bar>q\<bar> < 1 / 2" by (simp add: q_def)
    then have "\<bar>q - of_int 0\<bar> < 1 / 2" by simp
    then have "?k = 0" by (rule py_round_unique)
    moreover have "\<bar>p\<bar> < ?T / 4" using True T by (simp add: field_simps)
    moreover have "?T / 4 \<le> TICK_SIZE / 2" by (simp add: TICK_SIZE_f64_value TICK_SIZE_def)
    ultimately show ?thesis by simp
  next
    case False
    then have "\<bar>q - ?x\<bar> \<le> \<bar>?x\<bar> / 2 ^ 53" by (intro near) simp
    with kq have kx: "\<bar>of_int ?k - ?x\<bar> \<le> 1 / 2 + \<bar>?x\<bar> / 2 ^ 53" by linarith
    have px: "p = ?x * ?T" using T by simp
    have "of_int ?k * TICK_SIZE - p = TICK_SIZE * (of_int ?k - ?x) + ?x * (TICK_SIZE - ?T)"
      using T by (simp add: field_simps)
    then have "\<bar>of_int ?k * TICK_SIZE - p\<bar>
                 \<le> \<bar>TICK_SIZE * (of_int ?k - ?x)\<bar> + \<bar>?x * (TICK_SIZE - ?T)\<bar>"
      by (simp only: abs_triangle_ineq)
    also have "\<dots> = TICK_SIZE * \<bar>of_int ?k - ?x\<bar> + \<bar>?x\<bar> * \<bar>TICK_SIZE - ?T\<bar>"
      by (simp add: abs_mult TICK_SIZE_def)
    also have "\<dots> \<le> TICK_SIZE * (1 / 2 + \<bar>?x\<bar> / 2 ^ 53) + \<bar>?x\<bar> * \<bar>TICK_SIZE - ?T\<bar>"
      using kx by (intro add_right_mono mult_left_mono) (simp_all add: TICK_SIZE_def)
    also have "\<dots> = TICK_SIZE / 2 + \<bar>?x\<bar> * (TICK_SIZE / 2 ^ 53 + \<bar>TICK_SIZE - ?T\<bar>)"
      by (simp add: algebra_simps)
    also have "\<dots> = TICK_SIZE / 2 + \<bar>p\<bar> * ((TICK_SIZE / 2 ^ 53 + \<bar>TICK_SIZE - ?T\<bar>) / ?T)"
      using T by (simp add: xa)
    also have "\<dots> \<le> TICK_SIZE / 2 + \<bar>p\<bar> * (1 / 2 ^ 50)"
      by (intro add_left_mono mult_left_mono)
         (simp_all add: TICK_SIZE_f64_value TICK_SIZE_def)
    finally show ?thesis by simp
  qed
qed

lemmas f64_eval = ulp_at_def powr_neg_numeral py_round_def Let_def

lemma half_is_f64: "f64_nearest (1 / 2) = 1 / 2"
  by (subst f64_nearest_eval [where e = "- 1"]) (simp_all add: f64_eval)

lemma literal_25: "to_f64 (25 / 1000000) = Finite (TICK_SIZE_f64 / 2)"
proof -
  have "f64_nearest (25 / 1000000) = TICK_SIZE_f64 / 2"
    unfolding TICK_SIZE_f64_value
    by (subst f64_nearest_eval [where e = "- 16"]) (simp_all add: f64_eval)
  then show ?thesis
    using to_f64_finite_bound [of "25 / 1000000"] by (simp add: TICK_SIZE_f64_value)
qed

lemma literal_75: "to_f64 (75 / 1000000) = Finite (5534023222112865 / 2 ^ 66)"
proof -
  have "f64_nearest (75 / 1000000) = 5534023222112865 / 2 ^ 66"
    by (subst f64_nearest_eval [where e = "- 14"]) (simp_all add: f64_eval)
  then show ?thesis
    using to_f64_finite_bound [of "75 / 1000000"] by simp
qed

lemma literal_1100075: "to_f64 (1100075 / 1000000) = Finite (4954297360079598 / 2 ^ 52)"
proof -
  have "f64_nearest (1100075 / 1000000) = 4954297360079598 / 2 ^ 52"
    by (subst f64_nearest_eval [where e = 0]) (simp_all add: f64_eval)
  then show ?thesis
    using to_f64_finite_bound [of "1100075 / 1000000"] by simp
qed

text \<open>
  Claim C7, as the code has it: for a finite price \<open>p\<close> of magnitude at most 100000,
  \<^verbatim>\<open>round_to_tick\<close> forms the float quotient \<open>q\<close> of \<open>p\<close> and the tick size, takes the
  integer \<open>k\<close> nearest to \<open>q\<close>, a tie of \<open>q\<close> going to the even integer, and returns
  the float nearest to \<open>k \<times> 0.00005\<close>; that multiple lies within half a tick plus
  \<open>\<bar>p\<bar> / 2\<^sup>5\<^sup>0\<close> of \<open>p\<close>. Which neighbour a price halfway between two multiples gets is
  decided by the rounding of the quotient; it is not the one farther from zero.
\<close>

theorem round_to_tick_f64_nearest_tick:
  assumes "\<bar>p\<bar> \<le> 100000"
  shows "\<exists>q k. f64_div (Finite p) TICK_SIZE_f64 = Finite q
           \<and> k = py_round q
           \<and> (\<forall>m. \<bar>of_int k - q\<bar> \<le> \<bar>of_int m - q\<bar>)
           \<and> (\<bar>of_int k - q\<bar> = 1 / 2 \<longrightarrow> even k)
           \<and> round_to_tick_f64 (Finite p) = Inr (Finite (f64_nearest (of_int k * TICK_SIZE)))
           \<and> \<bar>of_int k * TICK_SIZE - p\<bar> \<le> TICK_SIZE / 2 + \<bar>p\<bar> / 2 ^ 50"
proof -
  let ?q = "f64_nearest (p / TICK_SIZE_f64)"
  have "\<bar>of_int (py_round ?q) - ?q\<bar> \<le> \<bar>of_int m - ?q\<bar>" for m
    by (rule py_round_nearest)
  moreover have "\<bar>of_int (py_round ?q) - ?q\<bar> = 1 / 2 \<longrightarrow> even (py_round ?q)"
    using py_round_tie_even by blast
  ultimately show ?thesis
    using round_to_tick_f64_finite [OF assms] by blast
qed

theorem round_to_tick_f64_nearest_tick_witness:
  "\<bar>TICK_SIZE_f64 / 2\<bar> \<le> 100000
   \<and> f64_div (Finite (TICK_SIZE_f64 / 2)) TICK_SIZE_f64 = Finite (1 / 2)
   \<and> \<bar>of_int (py_round (1 / 2)) - (1 / 2 :: real)\<bar> = 1 / 2
   \<and> even (py_round (1 / 2))
   \<and> round_to_tick_f64 (Finite (TICK_SIZE_f64 / 2)) = Inr (Finite 0)"
proof -
  have h: "\<bar>TICK_SIZE_f64 / 2\<bar> \<le> 100000" by (simp add: TICK_SIZE_f64_value)
  have d: "f64_div (Finite (TICK_SIZE_f64 / 2)) TICK_SIZE_f64 = Finite (1 / 2)"
    using TICK_SIZE_f64_pos to_f64_finite_bound [of "1 / 2"]
    by (simp add: f64_div_def half_is_f64)
  have t: "\<bar>of_int (py_round (1 / 2)) - (1 / 2 :: real)\<bar> = 1 / 2"
    by (simp add: py_round_def)
  from round_to_tick_f64_nearest_tick [OF h] obtain q k where
      qk: "f64_div (Finite (TICK_SIZE_f64 / 2)) TICK_SIZE_f64 = Finite q" "k = py_round q"
        "\<bar>of_int k - q\<bar> = 1 / 2 \<longrightarrow> even k"
        "round_to_tick_f64 (Finite (TICK_SIZE_f64 / 2))
           = Inr (Finite (f64_nearest (of_int k * TICK_SIZE)))"
    by blast
  from qk(1) d have q: "q = 1 / 2" by simp
  have e: "even (py_round (1 / 2))" using qk(2,3) t unfolding q by blast
  have "k = 0" using qk(2) unfolding q by (simp add: py_round_def)
  then have "f64_nearest (of_int k * TICK_SIZE) = 0" by (simp add: f64_nearest_def)
  with qk(4) have r: "round_to_tick_f64 (Finite (TICK_SIZE_f64 / 2)) = Inr (Finite 0)"
    by (simp only:)
  show ?thesis by (intro conjI h d t e r)
qed

text \<open>
  Claim C7 as stated fails: the float 0.000025 is half the float tick size, exactly
  halfway between the multiples 0 and 1 of it, and it is rounded to 0.0, the multiple
  nearer to zero.
\<close>

theorem round_to_tick_f64_tie_counterexample:
  "to_f64 (25 / 1000000) = Finite (TICK_SIZE_f64 / 2)
   \<and> \<bar>0 * TICK_SIZE_f64 - TICK_SIZE_f64 / 2\<bar> = \<bar>1 * TICK_SIZE_f64 - TICK_SIZE_f64 / 2\<bar>
   \<and> \<bar>0 * TICK_SIZE_f64\<bar> < \<bar>1 * TICK_SIZE_f64\<bar>
   \<and> round_to_tick_f64 (to_f64 (25 / 1000000)) = Inr (Finite 0)
   \<and> round_to_tick_f64 (to_f64 (25 / 1000000)) \<noteq> Inr (Finite (1 * TICK_SIZE_f64))"
proof -
  have h: "\<bar>TICK_SIZE_f64 / 2\<bar> \<le> 100000" by (simp add: TICK_SIZE_f64_value)
  have x: "TICK_SIZE_f64 / 2 / TICK_SIZE_f64 = 1 / 2" using TICK_SIZE_f64_pos by simp
  have q: "f64_nearest (TICK_SIZE_f64 / 2 / TICK_SIZE_f64) = 1 / 2"
    by (simp only: x half_is_f64)
  have k: "py_round (1 / 2) = 0" by (simp add: py_round_def)
  have z: "f64_nearest (of_int 0 * TICK_SIZE) = 0" by (simp add: f64_nearest_def)
  have r: "round_to_tick_f64 (Finite (TICK_SIZE_f64 / 2)) = Inr (Finite 0)"
    using round_to_tick_f64_finite(2) [OF h] by (simp only: q k z)
  have "round_to_tick_f64 (to_f64 (25 / 1000000)) = Inr (Finite 0)"
    by (simp only: literal_25 r)
  moreover have "to_f64 (25 / 1000000) = Finite (TICK_SIZE_f64 / 2)" by (rule literal_25)
  ultimately show ?thesis using TICK_SIZE_f64_pos by simp
qed

text \<open>Decimal half-ticks that the float quotient sends to the odd multiple.\<close>

lemma round_to_tick_f64_odd_multiples:
  "round_to_tick_f64 (to_f64 (75 / 1000000)) = Inr (to_f64 (1 * TICK_SIZE))"
  "round_to_tick_f64 (to_f64 (1100075 / 1000000)) = Inr (to_f64 (22001 * TICK_SIZE))"
proof -
  have f: "to_f64 (of_int k * TICK_SIZE) = Finite (f64_nearest (of_int k * TICK_SIZE))"
    if "\<bar>k\<bar> \<le> 100000" for k
  proof -
    have "\<bar>of_int k * TICK_SIZE\<bar> = \<bar>of_int k\<bar> * TICK_SIZE" by (simp add: abs_mult TICK_SIZE_def)
    also have "\<dots> \<le> 100000 * TICK_SIZE"
      using that by (intro mult_right_mono) (simp_all add: TICK_SIZE_def)
    also have "\<dots> \<le> 2 ^ 60" by (simp add: TICK_SIZE_def)
    finally show ?thesis by (rule to_f64_finite_bound)
  qed
  have q1: "f64_nearest (5534023222112865 / 2 ^ 66 / TICK_SIZE_f64) = 6755399441055743 / 2 ^ 52"
    unfolding TICK_SIZE_f64_value
    by (subst f64_nearest_eval [where e = 0]) (simp_all add: f64_eval)
  have k1: "py_round (6755399441055743 / 2 ^ 52) = 1" by (simp add: py_round_def)
  have h1: "\<bar>5534023222112865 / 2 ^ 66 :: real\<bar> \<le> 100000" by simp
  have "round_to_tick_f64 (to_f64 (75 / 1000000))
          = Inr (Finite (f64_nearest (of_int 1 * TICK_SIZE)))"
    using round_to_tick_f64_finite(2) [OF h1] by (simp only: literal_75 q1 k1)
  then show "round_to_tick_f64 (to_f64 (75 / 1000000)) = Inr (to_f64 (1 * TICK_SIZE))"
    using f [of 1] by simp
  have q2: "f64_nearest (4954297360079598 / 2 ^ 52 / TICK_SIZE_f64) = 6047726269628415 / 2 ^ 38"
    unfolding TICK_SIZE_f64_value
    by (subst f64_nearest_eval [where e = 14]) (simp_all add: f64_eval)
  have k2: "py_round (6047726269628415 / 2 ^ 38) = 22001" by (simp add: py_round_def)
  have h2: "\<bar>4954297360079598 / 2 ^ 52 :: real\<bar> \<le> 100000" by simp
  have "round_to_tick_f64 (to_f64 (1100075 / 1000000))
          = Inr (Finite (f64_nearest (of_int 22001 * TICK_SIZE)))"
    using round_to_tick_f64_finite(2) [OF h2] by (simp only: literal_1100075 q2 k2)
  then show "round_to_tick_f64 (to_f64 (1100075 / 1000000)) = Inr (to_f64 (22001 * TICK_SIZE))"
    using f [of 22001] by simp
qed

text \<open>An infinite price and NaN make the inner \<^verbatim>\<open>round\<close> raise.\<close>

lemma round_to_tick_f64_non_finite:
  "round_to_tick_f64 PosInf = Inl OverflowError"
  "round_to_tick_f64 NegInf = Inl OverflowError"
  "round_to_tick_f64 NaN = Inl NanToIntegerError"
  by (simp_all add: round_to_tick_f64_def f64_div_def py_round_f64_def)


end
